theory Spec2Isabelle
  imports Main "HOL-Library.Sublist"
begin

section \<open>JavaScript string operations\<close>

text \<open>
  A string is the list of its code units. The analyzers only compare code units with
  ASCII literals, so a \<^typ>\<open>char\<close> per code unit is enough; the model covers source
  text whose code units fit a byte.
\<close>

definition startsWith :: "string \<Rightarrow> string \<Rightarrow> bool" where
  "startsWith s p = prefix p s"

definition endsWith :: "string \<Rightarrow> string \<Rightarrow> bool" where
  "endsWith s p = suffix p s"

text \<open>\<^verbatim>\<open>s.includes(p)\<close>: \<open>p\<close> occurs in \<open>s\<close> as a contiguous run.\<close>

fun includes_str :: "string \<Rightarrow> string \<Rightarrow> bool" where
  "includes_str [] p = (p = [])"
| "includes_str (c # cs) p = (prefix p (c # cs) \<or> includes_str cs p)"

text \<open>
  \<^verbatim>\<open>s.split(sep)\<close> for a separator of one code unit: the pieces between the
  separators, in order; there is always at least one piece.
\<close>

fun split_str :: "string \<Rightarrow> char \<Rightarrow> string list" where
  "split_str [] sep = [[]]"
| "split_str (c # cs) sep =
     (if c = sep then [] # split_str cs sep
      else (case split_str cs sep of
              [] \<Rightarrow> [[c]]
            | p # ps \<Rightarrow> (c # p) # ps))"

text \<open>\<^verbatim>\<open>xs[i]\<close> on an array: \<^verbatim>\<open>undefined\<close> out of range.\<close>

definition at_index :: "'a list \<Rightarrow> nat \<Rightarrow> 'a option" where
  "at_index xs i = (if i < length xs then Some (xs ! i) else None)"

text \<open>
  \<^verbatim>\<open>v || d\<close> for an optional string \<open>v\<close>: \<^verbatim>\<open>undefined\<close> and the empty string
  are falsy.
\<close>

definition or_else :: "string option \<Rightarrow> string \<Rightarrow> string" where
  "or_else v d = (case v of None \<Rightarrow> d | Some s \<Rightarrow> if s = [] then d else s)"

text \<open>The decimal digits of a number, as a template literal renders it.\<close>

definition digit :: "nat \<Rightarrow> char" where
  "digit d = ''0123456789'' ! (d mod 10)"

fun string_of_nat :: "nat \<Rightarrow> string" where
  "string_of_nat n =
     (if n < 10 then [digit n] else string_of_nat (n div 10) @ [digit (n mod 10)])"

declare string_of_nat.simps [simp del]

text \<open>\<^verbatim>\<open>xs.join(sep)\<close>.\<close>

fun join :: "string list \<Rightarrow> string \<Rightarrow> string" where
  "join [] sep = []"
| "join [x] sep = x"
| "join (x # y # ys) sep = x @ sep @ join (y # ys) sep"

section \<open>The syntax tree\<close>

text \<open>
  The parser is outside the analyzers; its tree is the input. A node carries what the
  analyzers read of it: its source text (\<^verbatim>\<open>getText()\<close>), the fields they access,
  and its children. A name is kept as its text, one string for \<^verbatim>\<open>name.text\<close> and
  \<^verbatim>\<open>name.getText()\<close>, which agree on an identifier written without escapes; a
  heritage clause is its keyword with the \<^verbatim>\<open>expression\<close> nodes of its types. Fields that are
  optional in the parser's declarations (\<^verbatim>\<open>name?\<close>, \<^verbatim>\<open>type?\<close>, \<^verbatim>\<open>body?\<close>)
  are options, the others are not. Sub-nodes that no analyzer reads (modifiers and
  decorators, name nodes, type parameters, the return type of a method) are left out of
  a declaration, so the trees of the model are those where these hold no declaration
  and no call; any other syntax is an \<open>Other\<close> node with its kind, text and children.
\<close>

datatype heritage_token = ExtendsKeyword | ImplementsKeyword

datatype syntax_kind =
    SourceFile | Block | IfStatement | ForStatement | WhileStatement | DoStatement
  | CaseClause | ConditionalExpression | ExpressionStatement | ReturnStatement
  | OtherStatement | PropertyAccessExpression | Identifier | TypeReference | OtherSyntax

datatype node =
    FunctionDeclaration string "string option" "node list" "node option" "node option"
      \<comment> \<open>text, name, parameters, type, body\<close>
  | ClassDeclaration string "string option" "(heritage_token \<times> node list) list" "node list"
      \<comment> \<open>text, name, heritageClauses, members\<close>
  | InterfaceDeclaration string string "(heritage_token \<times> node list) list" "node list"
      \<comment> \<open>text, name, heritageClauses, members\<close>
  | MethodDeclaration string string "node list" "node option"
      \<comment> \<open>text, name, parameters, body\<close>
  | ConstructorDeclaration string "node list" "node option"
      \<comment> \<open>text, parameters, body\<close>
  | Parameter string string "node option" "node option"
      \<comment> \<open>text, name, type, initializer\<close>
  | CallExpression string node "node list"
      \<comment> \<open>text, expression, arguments\<close>
  | Other syntax_kind string "node list"
      \<comment> \<open>kind, text, children\<close>

fun option_list :: "'a option \<Rightarrow> 'a list" where
  "option_list None = []"
| "option_list (Some x) = [x]"

fun getText :: "node \<Rightarrow> string" where
  "getText (FunctionDeclaration t _ _ _ _) = t"
| "getText (ClassDeclaration t _ _ _) = t"
| "getText (InterfaceDeclaration t _ _ _) = t"
| "getText (MethodDeclaration t _ _ _) = t"
| "getText (ConstructorDeclaration t _ _) = t"
| "getText (Parameter t _ _ _) = t"
| "getText (CallExpression t _ _) = t"
| "getText (Other _ t _) = t"

text \<open>
  The children \<^verbatim>\<open>ts.forEachChild\<close> visits, in its order. No callback of the
  analyzers returns a value, so the iteration never stops early.
\<close>

fun forEachChild :: "node \<Rightarrow> node list" where
  "forEachChild (FunctionDeclaration _ _ ps ty body) = ps @ option_list ty @ option_list body"
| "forEachChild (ClassDeclaration _ _ hs ms) = concat (map snd hs) @ ms"
| "forEachChild (InterfaceDeclaration _ _ hs ms) = concat (map snd hs) @ ms"
| "forEachChild (MethodDeclaration _ _ ps body) = ps @ option_list body"
| "forEachChild (ConstructorDeclaration _ ps body) = ps @ option_list body"
| "forEachChild (Parameter _ _ ty ini) = option_list ty @ option_list ini"
| "forEachChild (CallExpression _ e args) = e # args"
| "forEachChild (Other _ _ cs) = cs"

lemma size_mem_list: "c \<in> set cs \<Longrightarrow> size (c::node) \<le> size_list size cs"
  by (induction cs) auto

lemma size_mem_option: "c \<in> set (option_list v) \<Longrightarrow> size (c::node) \<le> size_option size v"
  by (cases v) auto

lemma size_mem_heritage:
  "(k, cs) \<in> set hs \<Longrightarrow> c \<in> set cs \<Longrightarrow>
    size (c::node) \<le> size_list (size_prod (\<lambda>x. 0) (size_list size)) hs"
proof (induction hs)
  case Nil
  then show ?case by simp
next
  case (Cons h hs)
  show ?case
  proof (cases "h = (k, cs)")
    case True
    from Cons.prems(2) have "size c \<le> size_list size cs" by (rule size_mem_list)
    with True show ?thesis by simp
  next
    case False
    with Cons.prems have "(k, cs) \<in> set hs" by simp
    then have "size c \<le> size_list (size_prod (\<lambda>x. 0) (size_list size)) hs"
      using Cons.prems(2) by (rule Cons.IH)
    then show ?thesis by simp
  qed
qed

lemma size_forEachChild:
  assumes "c \<in> set (forEachChild n)"
  shows "size c < size n"
  using assms
  by (cases n)
    (auto simp: less_Suc_eq_le dest: size_mem_list size_mem_option size_mem_heritage)

section \<open>The structural graph extractor (\<^verbatim>\<open>TypeScriptAnalyzer\<close>)\<close>

subsection \<open>Graph and analyzer state\<close>

datatype node_type = Function | Class | Interface | Call

datatype edge_type = Default | Calls | Implements | Extends

record CodeNode =
  node_id :: string
  node_type :: node_type
  data_label :: string
  data_details :: "string option"
  position_x :: int
  position_y :: int

record CodeEdge =
  edge_id :: string
  edge_source :: string
  edge_target :: string
  edge_type :: edge_type

record AnalyzerResult =
  result_nodes :: "CodeNode list"
  result_edges :: "CodeEdge list"

record VisitedNode =
  visited_id :: string
  visited_name :: string
  visited_type :: node_type

text \<open>The mutable fields of an analyzer instance. \<^verbatim>\<open>packagesToIgnore\<close> is never
  assigned after construction and is a constant below.\<close>

record TypeScriptAnalyzer =
  nodes :: "CodeNode list"
  edges :: "CodeEdge list"
  visitedNodes :: "VisitedNode list"
  nodeCounter :: nat
  currentX :: int
  currentY :: int

text \<open>An instance as its field initialisers leave it.\<close>

definition newAnalyzer :: TypeScriptAnalyzer where
  "newAnalyzer =
     \<lparr>nodes = [], edges = [], visitedNodes = [], nodeCounter = 0, currentX = 0, currentY = 0\<rparr>"

definition packagesToIgnore :: "string list" where
  "packagesToIgnore =
     [''console'', ''logger'', ''supabase'', ''dayjs'', ''moment'', ''axios'', ''fetch'',
      ''localStorage'', ''JSON'', ''Object'', ''supabaseAdmin'', ''Math'', ''Date'',
      ''Error'', ''map'', ''from'', ''to'', ''Array'', ''Set'', ''Map'', ''Promise'',
      ''pg_execute'']"

subsection \<open>Node identity and layout\<close>

text \<open>\<^verbatim>\<open>createNodeId\<close>: pre-increments the counter.\<close>

definition createNodeId :: "TypeScriptAnalyzer \<Rightarrow> string \<times> TypeScriptAnalyzer" where
  "createNodeId st =
     (''node-'' @ string_of_nat (nodeCounter st + 1), st\<lparr>nodeCounter := nodeCounter st + 1\<rparr>)"

definition findVisitedNode ::
  "string \<Rightarrow> node_type \<Rightarrow> TypeScriptAnalyzer \<Rightarrow> VisitedNode option" where
  "findVisitedNode name ty st =
     find (\<lambda>node. visited_name node = name \<and> visited_type node = ty) (visitedNodes st)"

definition addNode ::
  "node_type \<Rightarrow> string \<Rightarrow> string option \<Rightarrow> TypeScriptAnalyzer \<Rightarrow> string \<times> TypeScriptAnalyzer"
  where
  "addNode ty name details st =
     (case findVisitedNode name ty st of
        Some existingNode \<Rightarrow> (visited_id existingNode, st)
      | None \<Rightarrow>
          (let (ident, st1) = createNodeId st;
               node = \<lparr>node_id = ident, node_type = ty, data_label = name,
                       data_details = details,
                       position_x = currentX st1, position_y = currentY st1\<rparr>;
               st2 = st1\<lparr>nodes := nodes st1 @ [node]\<rparr>;
               st3 = st2\<lparr>visitedNodes := visitedNodes st2 @
                       [\<lparr>visited_id = ident, visited_name = name, visited_type = ty\<rparr>]\<rparr>;
               st4 = st3\<lparr>currentY := currentY st3 + 100\<rparr>;
               st5 = (if currentY st4 > 500
                      then st4\<lparr>currentY := 0, currentX := currentX st4 + 250\<rparr>
                      else st4)
           in (ident, st5)))"

definition addEdge ::
  "string \<Rightarrow> string \<Rightarrow> edge_type \<Rightarrow> TypeScriptAnalyzer \<Rightarrow> TypeScriptAnalyzer" where
  "addEdge src tgt ty st =
     st\<lparr>edges := edges st @
       [\<lparr>edge_id = ''edge-'' @ src @ ''-'' @ tgt, edge_source = src, edge_target = tgt,
         edge_type = ty\<rparr>]\<rparr>"

subsection \<open>The external-package heuristic\<close>

definition isLineTerminator :: "char \<Rightarrow> bool" where
  "isLineTerminator c = (c = CHR 0x0A \<or> c = CHR 0x0D)"

text \<open>
  The regular expression \<^verbatim>\<open>/^[a-z].*\..*/\<close>: the first code unit is a lowercase
  ASCII letter and a dot follows it on the same line (\<^verbatim>\<open>.\<close> does not match a
  line terminator; the trailing \<^verbatim>\<open>.*\<close> may match nothing). Line feed and carriage
  return are the line terminators among the code units of the model.
\<close>

definition lowercaseThenDot :: "string \<Rightarrow> bool" where
  "lowercaseThenDot s =
     (case s of
        [] \<Rightarrow> False
      | c # rest \<Rightarrow>
          c \<in> set ''abcdefghijklmnopqrstuvwxyz'' \<and>
          CHR ''.'' \<in> set (takeWhile (\<lambda>d. \<not> isLineTerminator d) rest))"

definition isExternalPackageCall :: "string \<Rightarrow> bool" where
  "isExternalPackageCall functionName =
     (if list_ex (\<lambda>packageName. startsWith functionName packageName) packagesToIgnore
      then True
      else lowercaseThenDot functionName \<or> startsWith functionName ''$'' \<or>
           startsWith functionName ''_'')"

subsection \<open>Call discovery\<close>

text \<open>\<^verbatim>\<open>ts.isCallExpression(node)\<close> with \<^verbatim>\<open>node.expression.getText()\<close>.\<close>

fun calledFunction :: "node \<Rightarrow> string option" where
  "calledFunction (CallExpression _ e _) = Some (getText e)"
| "calledFunction _ = None"

text \<open>
  The body of \<^verbatim>\<open>visitCallExpression\<close> for a call that is not dropped: an existing
  function node of that name is reused, otherwise a call node is added (or reused); then
  the edge is pushed.
\<close>

definition recordCall :: "string \<Rightarrow> string \<Rightarrow> TypeScriptAnalyzer \<Rightarrow> TypeScriptAnalyzer" where
  "recordCall functionNodeId callee st =
     (let (callNodeId, st1) =
            (case findVisitedNode callee Function st of
               Some existingNode \<Rightarrow> (visited_id existingNode, st)
             | None \<Rightarrow> addNode Call callee None st)
      in addEdge functionNodeId callNodeId Calls st1)"

text \<open>
  \<^verbatim>\<open>visitCallExpression\<close>, the closure of \<^verbatim>\<open>analyzeFunctionBody\<close>. An external
  call returns before \<^verbatim>\<open>forEachChild\<close>: its callee and arguments are not searched.
\<close>

function visitCallExpression ::
  "string \<Rightarrow> node \<Rightarrow> TypeScriptAnalyzer \<Rightarrow> TypeScriptAnalyzer" where
  "visitCallExpression functionNodeId node st =
     (case calledFunction node of
        Some callee \<Rightarrow>
          (if isExternalPackageCall callee then st
           else fold (visitCallExpression functionNodeId) (forEachChild node)
                  (recordCall functionNodeId callee st))
      | None \<Rightarrow> fold (visitCallExpression functionNodeId) (forEachChild node) st)"
  by pat_completeness auto
termination
  by (relation "measure (\<lambda>(f, n, st). size n)") (auto dest: size_forEachChild)

declare visitCallExpression.simps [simp del]

definition analyzeFunctionBody ::
  "node \<Rightarrow> string \<Rightarrow> TypeScriptAnalyzer \<Rightarrow> TypeScriptAnalyzer" where
  "analyzeFunctionBody body functionNodeId st = visitCallExpression functionNodeId body st"

subsection \<open>Declarations\<close>

text \<open>
  One heritage type of a class: \<^verbatim>\<open>addNode('class', type.expression.getText())\<close> and
  an edge, \<^verbatim>\<open>extends\<close> for the extends keyword and \<^verbatim>\<open>implements\<close> otherwise.
\<close>

definition classHeritageType ::
  "string \<Rightarrow> heritage_token \<Rightarrow> node \<Rightarrow> TypeScriptAnalyzer \<Rightarrow> TypeScriptAnalyzer" where
  "classHeritageType nodeId token e st =
     (let (baseClassId, st1) = addNode Class (getText e) None st
      in addEdge nodeId baseClassId (if token = ExtendsKeyword then Extends else Implements) st1)"

definition interfaceHeritageType ::
  "string \<Rightarrow> node \<Rightarrow> TypeScriptAnalyzer \<Rightarrow> TypeScriptAnalyzer" where
  "interfaceHeritageType nodeId e st =
     (let (baseId, st1) = addNode Interface (getText e) None st
      in addEdge nodeId baseId Extends st1)"

text \<open>One member of a class: only method declarations are looked at.\<close>

fun classMember :: "string \<Rightarrow> node \<Rightarrow> TypeScriptAnalyzer \<Rightarrow> TypeScriptAnalyzer" where
  "classMember nodeId (MethodDeclaration _ methodName _ body) st =
     (let (methodId, st1) = addNode Function methodName None st;
          st2 = addEdge nodeId methodId Default st1
      in (case body of
            Some b \<Rightarrow> analyzeFunctionBody b methodId st2
          | None \<Rightarrow> st2))"
| "classMember nodeId _ st = st"

text \<open>
  The \<^verbatim>\<open>if / else if\<close> chain of \<^verbatim>\<open>visitNode\<close>, before it descends into the
  children. The function name is \<^verbatim>\<open>node.name?.getText().split('.')[1] || 'anonymous'\<close>.
\<close>

fun visitDeclaration :: "node \<Rightarrow> TypeScriptAnalyzer \<Rightarrow> TypeScriptAnalyzer" where
  "visitDeclaration (FunctionDeclaration _ name parameters ty body) st =
     (let functionName =
            or_else (case name of
                       None \<Rightarrow> None
                     | Some n \<Rightarrow> at_index (split_str n CHR ''.'') 1) ''anonymous'';
          params = join (map getText parameters) '', '';
          returnType = (case ty of Some t \<Rightarrow> '': '' @ getText t | None \<Rightarrow> []);
          details = ''('' @ params @ '')'' @ returnType;
          (nodeId, st1) = addNode Function functionName (Some details) st
      in (case body of
            Some b \<Rightarrow> analyzeFunctionBody b nodeId st1
          | None \<Rightarrow> st1))"
| "visitDeclaration (ClassDeclaration _ name heritageClauses members) st =
     (let className = or_else name ''anonymous'';
          (nodeId, st1) = addNode Class className None st;
          st2 = fold (\<lambda>(token, types). fold (classHeritageType nodeId token) types)
                  heritageClauses st1
      in fold (classMember nodeId) members st2)"
| "visitDeclaration (InterfaceDeclaration _ interfaceName heritageClauses _) st =
     (let (nodeId, st1) = addNode Interface interfaceName None st
      in fold (\<lambda>(token, types). fold (interfaceHeritageType nodeId) types)
           heritageClauses st1)"
| "visitDeclaration _ st = st"

function visitNode :: "node \<Rightarrow> TypeScriptAnalyzer \<Rightarrow> TypeScriptAnalyzer" where
  "visitNode node st = fold visitNode (forEachChild node) (visitDeclaration node st)"
  by pat_completeness auto
termination
  by (relation "measure (\<lambda>(n, st). size n)") (auto dest: size_forEachChild)

declare visitNode.simps [simp del]

text \<open>
  \<^verbatim>\<open>analyze\<close>: the fields are reset, the source is parsed and the tree is visited.
  The parser \<^verbatim>\<open>ts.createSourceFile\<close> is a parameter. The result shares the instance's
  lists; the instance after the call is returned with it.
\<close>

definition reset :: "TypeScriptAnalyzer \<Rightarrow> TypeScriptAnalyzer" where
  "reset st =
     st\<lparr>nodes := [], edges := [], visitedNodes := [], nodeCounter := 0,
        currentX := 0, currentY := 0\<rparr>"

definition analyze ::
  "(string \<Rightarrow> node) \<Rightarrow> string \<Rightarrow> TypeScriptAnalyzer \<Rightarrow> AnalyzerResult \<times> TypeScriptAnalyzer"
  where
  "analyze createSourceFile sourceCode st =
     (let st0 = reset st;
          sourceFile = createSourceFile sourceCode;
          st1 = visitNode sourceFile st0
      in (\<lparr>result_nodes = nodes st1, result_edges = edges st1\<rparr>, st1))"

section \<open>The handler dependency analyzer\<close>

subsection \<open>The handler descriptor\<close>

datatype db_action = SELECT | INSERT | UPDATE | DELETE

datatype external_type = Api | Queue

record DatabaseAccess =
  db_name :: string
  db_actions :: "db_action list"

record DatabaseDependency =
  table :: string
  actions :: "db_action list"

record ExternalDependency =
  external_type :: external_type
  external_name :: string
  endpoints :: "string list option"

text \<open>The object \<^verbatim>\<open>analyzeConstructor\<close> builds.\<close>

record Dependencies =
  dep_services :: "string list"
  dep_databases :: "DatabaseAccess list"
  dep_external :: "ExternalDependency list"

text \<open>The node \<^verbatim>\<open>analyzeHandler\<close> returns, with \<^verbatim>\<open>position\<close>, \<^verbatim>\<open>data\<close> and
  \<^verbatim>\<open>data.dependencies\<close> flattened.\<close>

record HandlerNode =
  handler_id :: string
  handler_type :: string
  handler_position_x :: int
  handler_position_y :: int
  data_handler :: string
  data_method :: string
  services :: "string list"
  databases :: "DatabaseDependency list"
  external :: "ExternalDependency list"

subsection \<open>Finding the class\<close>

fun isClassDeclaration :: "node \<Rightarrow> bool" where
  "isClassDeclaration (ClassDeclaration _ _ _ _) = True"
| "isClassDeclaration _ = False"

fun isConstructorDeclaration :: "node \<Rightarrow> bool" where
  "isConstructorDeclaration (ConstructorDeclaration _ _ _) = True"
| "isConstructorDeclaration _ = False"

fun isMethodDeclaration :: "node \<Rightarrow> bool" where
  "isMethodDeclaration (MethodDeclaration _ _ _ _) = True"
| "isMethodDeclaration _ = False"

text \<open>
  One constructor parameter: \<^verbatim>\<open>param.type?.getText()\<close>, skipped when absent or
  empty. A parameter list holds parameters only; the last equation is for totality.
\<close>

fun constructorParameter :: "node \<Rightarrow> Dependencies \<Rightarrow> Dependencies" where
  "constructorParameter (Parameter _ name ty _) deps =
     (case ty of
        None \<Rightarrow> deps
      | Some t \<Rightarrow>
          (let tyText = getText t in
           if tyText = [] then deps
           else if endsWith tyText ''Service''
           then deps\<lparr>dep_services := dep_services deps @ [tyText]\<rparr>
           else if includes_str tyText ''Database''
           then deps\<lparr>dep_databases := dep_databases deps @
                  [\<lparr>db_name = name, db_actions = [SELECT, INSERT, UPDATE, DELETE]\<rparr>]\<rparr>
           else deps))"
| "constructorParameter _ deps = deps"

text \<open>\<^verbatim>\<open>node.parameters\<close>, \<^verbatim>\<open>node.body\<close>: \<^verbatim>\<open>undefined\<close> on a node that has no
  such property.\<close>

fun parameters :: "node \<Rightarrow> node list option" where
  "parameters (FunctionDeclaration _ _ ps _ _) = Some ps"
| "parameters (MethodDeclaration _ _ ps _) = Some ps"
| "parameters (ConstructorDeclaration _ ps _) = Some ps"
| "parameters _ = None"

fun body :: "node \<Rightarrow> node option" where
  "body (FunctionDeclaration _ _ _ _ b) = b"
| "body (MethodDeclaration _ _ _ b) = b"
| "body (ConstructorDeclaration _ _ b) = b"
| "body _ = None"

text \<open>\<^verbatim>\<open>analyzeConstructor\<close>, called on the constructor declaration found among the
  members; it never pushes to \<^verbatim>\<open>external\<close>.\<close>

definition analyzeConstructor :: "node \<Rightarrow> Dependencies" where
  "analyzeConstructor node =
     fold constructorParameter (case parameters node of Some ps \<Rightarrow> ps | None \<Rightarrow> [])
       \<lparr>dep_services = [], dep_databases = [], dep_external = []\<rparr>"

fun handlerMethod :: "node \<Rightarrow> HandlerNode \<Rightarrow> HandlerNode" where
  "handlerMethod (MethodDeclaration _ name _ _) h = h\<lparr>data_method := name\<rparr>"
| "handlerMethod _ h = h"

text \<open>
  The class branch of \<^verbatim>\<open>visit\<close>: the handler name is \<^verbatim>\<open>node.name?.text || ""\<close>;
  the dependencies come from the first constructor member, if any
  (\<^verbatim>\<open>db.actions\<close> is always an array there, so \<^verbatim>\<open>db.actions || [...]\<close> is
  \<^verbatim>\<open>db.actions\<close>); every method member overwrites the method name. No result for a
  node that is not a class declaration.
\<close>

fun visitClass :: "HandlerNode \<Rightarrow> node \<Rightarrow> HandlerNode option" where
  "visitClass h (ClassDeclaration _ name _ members) =
     (let h1 = h\<lparr>data_handler := or_else name []\<rparr>;
          h2 = (case find isConstructorDeclaration members of
                  Some ctor \<Rightarrow>
                    (let deps = analyzeConstructor ctor in
                     h1\<lparr>services := dep_services deps,
                        databases := map (\<lambda>db. \<lparr>table = db_name db, actions = db_actions db\<rparr>)
                                       (dep_databases deps),
                        external := dep_external deps\<rparr>)
                | None \<Rightarrow> h1)
      in Some (fold handlerMethod (filter isMethodDeclaration members) h2))"
| "visitClass h _ = None"

text \<open>
  \<^verbatim>\<open>node.getChildren()\<close>: the child nodes in source order. The tokens it also lists
  have no children and are no declarations, and a syntax list stands for its elements, so
  the nodes a depth-first search meets, and their order, are those of
  \<^const>\<open>forEachChild\<close>.
\<close>

definition getChildren :: "node \<Rightarrow> node list" where
  "getChildren node = forEachChild node"

text \<open>The loop \<^verbatim>\<open>for (const child of ...) { const result = visit(child); if (result)
  return result; }\<close> followed by \<^verbatim>\<open>return null\<close>.\<close>

fun firstResult :: "('a \<Rightarrow> 'b option) \<Rightarrow> 'a list \<Rightarrow> 'b option" where
  "firstResult f [] = None"
| "firstResult f (x # xs) = (case f x of Some r \<Rightarrow> Some r | None \<Rightarrow> firstResult f xs)"

lemma firstResult_cong [fundef_cong]:
  "xs = ys \<Longrightarrow> (\<And>x. x \<in> set ys \<Longrightarrow> f x = g x) \<Longrightarrow> firstResult f xs = firstResult g ys"
  by (induction ys arbitrary: xs) (auto split: option.splits)

function visit :: "HandlerNode \<Rightarrow> node \<Rightarrow> HandlerNode list option" where
  "visit handlerNode node =
     (case visitClass handlerNode node of
        Some h \<Rightarrow> Some [h]
      | None \<Rightarrow> firstResult (visit handlerNode) (getChildren node))"
  by pat_completeness auto
termination
  by (relation "measure (\<lambda>(h, n). size n)") (auto simp: getChildren_def dest: size_forEachChild)

declare visit.simps [simp del]

text \<open>
  \<^verbatim>\<open>analyzeHandler\<close>. The identifier comes from \<^verbatim>\<open>crypto.randomUUID()\<close>; the
  value that call returns is the first argument.
\<close>

definition handlerNode :: "string \<Rightarrow> HandlerNode" where
  "handlerNode uuid =
     \<lparr>handler_id = uuid, handler_type = ''handler'',
      handler_position_x = 0, handler_position_y = 0,
      data_handler = [], data_method = [],
      services = [], databases = [], external = []\<rparr>"

definition analyzeHandler :: "string \<Rightarrow> node \<Rightarrow> HandlerNode list option" where
  "analyzeHandler uuid sourceFile = visit (handlerNode uuid) sourceFile"

subsection \<open>The call-type heuristic\<close>

text \<open>\<^verbatim>\<open>determineCallType\<close> (handler analyzer, lines 278-319).\<close>

definition determineCallType :: "string \<Rightarrow> string" where
  "determineCallType target =
     (if includes_str target ''supabaseAdmin'' \<or> includes_str target ''pg_execute'' \<or>
         includes_str target ''repository'' \<or> includes_str target ''dao''
      then ''database''
      else if includes_str target ''axios'' \<or> includes_str target ''fetch'' \<or>
         includes_str target ''http'' \<or> includes_str target ''request''
      then ''api''
      else if includes_str target ''Queue'' \<or> includes_str target ''queue'' \<or>
         includes_str target ''EventHandler''
      then ''queue''
      else if includes_str target ''Service'' \<or> includes_str target ''Client''
      then ''service''
      else if includes_str target ''logger'' \<or> includes_str target ''this.slack''
      then ''utility''
      else ''unknown'')"

subsection \<open>Method complexity\<close>

datatype error = TypeError

record ComplexityMetrics =
  cyclomaticComplexity :: int
  numberOfStatements :: int
  depth :: int

text \<open>The four local variables of \<^verbatim>\<open>analyzeMethodComplexity\<close>.\<close>

record Counters =
  complexity :: int
  statements :: int
  maxDepth :: int
  currentDepth :: int

fun isKind :: "syntax_kind \<Rightarrow> node \<Rightarrow> bool" where
  "isKind k (Other k' _ _) = (k' = k)"
| "isKind k _ = False"

text \<open>\<^verbatim>\<open>ts.isStatement\<close>: the statement kinds, the declaration statements among them.\<close>

fun isStatement :: "node \<Rightarrow> bool" where
  "isStatement (Other k _ _) =
     (k \<in> set [Block, IfStatement, ForStatement, WhileStatement, DoStatement,
                ExpressionStatement, ReturnStatement, OtherStatement])"
| "isStatement (FunctionDeclaration _ _ _ _ _) = True"
| "isStatement (ClassDeclaration _ _ _ _) = True"
| "isStatement (InterfaceDeclaration _ _ _ _) = True"
| "isStatement _ = False"

definition isControlFlow :: "node \<Rightarrow> bool" where
  "isControlFlow node =
     (isKind IfStatement node \<or> isKind ForStatement node \<or> isKind WhileStatement node \<or>
      isKind DoStatement node \<or> isKind CaseClause node \<or> isKind ConditionalExpression node)"

definition isNesting :: "node \<Rightarrow> bool" where
  "isNesting node =
     (isKind Block node \<or> isKind IfStatement node \<or> isKind ForStatement node \<or>
      isKind WhileStatement node)"

text \<open>The inner \<^verbatim>\<open>visit\<close> of \<^verbatim>\<open>analyzeMethodComplexity\<close>, on a node that is there.\<close>

function visitComplexity :: "node \<Rightarrow> Counters \<Rightarrow> Counters" where
  "visitComplexity node c =
     (let c1 = (if isControlFlow node then c\<lparr>complexity := complexity c + 1\<rparr> else c);
          c2 = (if isNesting node
                then c1\<lparr>currentDepth := currentDepth c1 + 1,
                        maxDepth := max (maxDepth c1) (currentDepth c1 + 1)\<rparr>
                else c1);
          c3 = (if isStatement node \<and> \<not> isKind Block node
                then c2\<lparr>statements := statements c2 + 1\<rparr> else c2);
          c4 = fold visitComplexity (forEachChild node) c3
      in if isNesting node then c4\<lparr>currentDepth := currentDepth c4 - 1\<rparr> else c4)"
  by pat_completeness auto
termination
  by (relation "measure (\<lambda>(n, c). size n)") (auto dest: size_forEachChild)

declare visitComplexity.simps [simp del]

text \<open>
  \<^verbatim>\<open>analyzeMethodComplexity\<close>: \<^verbatim>\<open>visit(node.body!)\<close>. The non-null assertion is
  erased at run time; with no body, \<^verbatim>\<open>visit(undefined)\<close> reads
  \<^verbatim>\<open>undefined.kind\<close> in its first test and throws a \<^verbatim>\<open>TypeError\<close>.
\<close>

definition analyzeMethodComplexity :: "node \<Rightarrow> error + ComplexityMetrics" where
  "analyzeMethodComplexity node =
     (case body node of
        None \<Rightarrow> Inl TypeError
      | Some b \<Rightarrow>
          (let c = visitComplexity b
                     \<lparr>complexity = 1, statements = 0, maxDepth = 0, currentDepth = 0\<rparr>
           in Inr \<lparr>cyclomaticComplexity = complexity c, numberOfStatements = statements c,
                   depth = maxDepth c\<rparr>))"

section \<open>Notions the properties are stated with\<close>

subsection \<open>Structural graph extractor\<close>

text \<open>The node a recorded call points to.\<close>

definition calleeNodeId :: "string \<Rightarrow> TypeScriptAnalyzer \<Rightarrow> string" where
  "calleeNodeId callee st =
     (case findVisitedNode callee Function st of
        Some existingNode \<Rightarrow> visited_id existingNode
      | None \<Rightarrow> fst (addNode Call callee None st))"

text \<open>
  The calls a body records, by callee text and in the order of the traversal: the call
  expressions that the external-package heuristic does not drop and that are not inside
  a dropped call.
\<close>

function recordedCalls :: "node \<Rightarrow> string list" where
  "recordedCalls node =
     (case calledFunction node of
        Some callee \<Rightarrow>
          (if isExternalPackageCall callee then []
           else callee # concat (map recordedCalls (forEachChild node)))
      | None \<Rightarrow> concat (map recordedCalls (forEachChild node)))"
  by pat_completeness auto
termination
  by (relation "measure size") (auto dest: size_forEachChild)

declare recordedCalls.simps [simp del]

text \<open>The edge a recorded call pushes.\<close>

definition callsEdge :: "string \<Rightarrow> string \<Rightarrow> CodeEdge" where
  "callsEdge functionNodeId callNodeId =
     \<lparr>edge_id = ''edge-'' @ functionNodeId @ ''-'' @ callNodeId,
      edge_source = functionNodeId, edge_target = callNodeId, edge_type = Calls\<rparr>"

text \<open>The index has a function or a call of that name.\<close>

definition indexed :: "string \<Rightarrow> TypeScriptAnalyzer \<Rightarrow> bool" where
  "indexed callee st =
     (findVisitedNode callee Function st \<noteq> None \<or> findVisitedNode callee Call st \<noteq> None)"

text \<open>Where the \<open>k\<close>-th node of a run is placed, counting from zero: six to a column.\<close>

definition cursorAt :: "nat \<Rightarrow> int \<times> int" where
  "cursorAt k = (250 * int (k div 6), 100 * int (k mod 6))"

text \<open>The layout invariant: the nodes of the run stand at the first cursor positions, and
  the cursor at the next one.\<close>

definition layoutInv :: "TypeScriptAnalyzer \<Rightarrow> bool" where
  "layoutInv st =
     (map (\<lambda>n. (position_x n, position_y n)) (nodes st) = map cursorAt [0..<length (nodes st)] \<and>
      currentX st = fst (cursorAt (length (nodes st))) \<and>
      currentY st = snd (cursorAt (length (nodes st))))"

text \<open>The entry of the identity index that \<^const>\<open>addNode\<close> pushes with a node.\<close>

definition visitedOf :: "CodeNode \<Rightarrow> VisitedNode" where
  "visitedOf n = \<lparr>visited_id = node_id n, visited_name = data_label n, visited_type = node_type n\<rparr>"

text \<open>
  The index lists the nodes, entry by entry, and no two nodes have the same label and
  kind.
\<close>

definition identityInv :: "TypeScriptAnalyzer \<Rightarrow> bool" where
  "identityInv st =
     (visitedNodes st = map visitedOf (nodes st) \<and>
      distinct (map (\<lambda>n. (data_label n, node_type n)) (nodes st)))"

text \<open>The analyzer after the class \<open>A\<close> and its method \<open>m\<close> have been added.\<close>

definition classWithMethod :: TypeScriptAnalyzer where
  "classWithMethod =
     \<lparr>nodes =
        [\<lparr>node_id = ''node-1'', node_type = Class, data_label = ''A'',
          data_details = None, position_x = 0, position_y = 0\<rparr>,
         \<lparr>node_id = ''node-2'', node_type = Function, data_label = ''m'',
          data_details = None, position_x = 0, position_y = 100\<rparr>],
      edges =
        [\<lparr>edge_id = ''edge-node-1-node-2'', edge_source = ''node-1'',
          edge_target = ''node-2'', edge_type = Default\<rparr>],
      visitedNodes =
        [\<lparr>visited_id = ''node-1'', visited_name = ''A'', visited_type = Class\<rparr>,
         \<lparr>visited_id = ''node-2'', visited_name = ''m'', visited_type = Function\<rparr>],
      nodeCounter = 2, currentX = 0, currentY = 200\<rparr>"

text \<open>Two source files for the examples: seven interfaces, and one interface declared
  twice.\<close>

definition sevenInterfaces :: node where
  "sevenInterfaces =
     Other SourceFile []
       [InterfaceDeclaration ''interface A {}'' ''A'' [] [],
        InterfaceDeclaration ''interface B {}'' ''B'' [] [],
        InterfaceDeclaration ''interface C {}'' ''C'' [] [],
        InterfaceDeclaration ''interface D {}'' ''D'' [] [],
        InterfaceDeclaration ''interface E {}'' ''E'' [] [],
        InterfaceDeclaration ''interface F {}'' ''F'' [] [],
        InterfaceDeclaration ''interface G {}'' ''G'' [] []]"

definition twoInterfacesSameName :: node where
  "twoInterfacesSameName =
     Other SourceFile []
       [InterfaceDeclaration ''interface A {}'' ''A'' [] [],
        InterfaceDeclaration ''interface A {}'' ''A'' [] []]"

subsection \<open>Handler dependency analyzer\<close>

text \<open>
  The rule table the specification describes: the categories in priority order, each
  with its substrings; the first rule with a substring in the target gives the category,
  and \<open>unknown\<close> is left when none has.
\<close>

definition callTypeRules :: "(string list \<times> string) list" where
  "callTypeRules =
     [([''supabaseAdmin'', ''pg_execute'', ''repository'', ''dao''], ''database''),
      ([''axios'', ''fetch'', ''http'', ''request''], ''api''),
      ([''Queue'', ''queue'', ''EventHandler''], ''queue''),
      ([''Service'', ''Client''], ''service''),
      ([''logger'', ''this.slack''], ''utility'')]"

fun firstMatch :: "(string list \<times> string) list \<Rightarrow> string \<Rightarrow> string" where
  "firstMatch [] target = ''unknown''"
| "firstMatch ((patterns, category) # rules) target =
     (if list_ex (includes_str target) patterns then category else firstMatch rules target)"

text \<open>
  The nodes of a tree in top-down, depth-first order: a node, then the nodes of its
  children's trees from left to right.
\<close>

function preorder :: "node \<Rightarrow> node list" where
  "preorder n = n # concat (map preorder (forEachChild n))"
  by pat_completeness auto
termination
  by (relation "measure size") (auto dest: size_forEachChild)

declare preorder.simps [simp del]

text \<open>The state of the handler node before the methods are read.\<close>

definition withDependencies :: "HandlerNode \<Rightarrow> string option \<Rightarrow> node list \<Rightarrow> HandlerNode" where
  "withDependencies h name members =
     (case find isConstructorDeclaration members of
        Some ctor \<Rightarrow>
          h\<lparr>data_handler := or_else name [],
            services := dep_services (analyzeConstructor ctor),
            databases := map (\<lambda>db. \<lparr>table = db_name db, actions = db_actions db\<rparr>)
                           (dep_databases (analyzeConstructor ctor)),
            external := dep_external (analyzeConstructor ctor)\<rparr>
      | None \<Rightarrow> h\<lparr>data_handler := or_else name []\<rparr>)"

section \<open>Properties of the structural graph extractor\<close>

subsection \<open>What every step of the traversal preserves\<close>

text \<open>
  The traversal changes the analyzer only through \<^const>\<open>addNode\<close> and
  \<^const>\<open>addEdge\<close>: a property of the state that both preserve holds after
  \<^const>\<open>visitNode\<close> if it held before.
\<close>

lemma find_append_first:
  "find P (xs @ ys) = (case find P xs of None \<Rightarrow> find P ys | Some x \<Rightarrow> Some x)"
  by (induction xs) auto

lemma fold_preserves:
  assumes "\<And>x s. x \<in> set xs \<Longrightarrow> P s \<Longrightarrow> P (f x s)" and "P s"
  shows "P (fold f xs s)"
  using assms by (induction xs arbitrary: s) auto

lemma heritage_fold_preserves:
  assumes step: "\<And>token e s. P s \<Longrightarrow> P (g token e s)" and "P st"
  shows "P (fold (\<lambda>(token, types). fold (g token) types) hs st)"
  using \<open>P st\<close>
proof (induction hs arbitrary: st)
  case Nil
  then show ?case by simp
next
  case (Cons h hs)
  obtain token types where h: "h = (token, types)" by (cases h)
  have "P (fold (g token) types st)"
    using step Cons.prems by (rule fold_preserves [where P = P])
  then have "P (fold (\<lambda>(token, types). fold (g token) types) hs (fold (g token) types st))"
    by (rule Cons.IH)
  with h show ?case by simp
qed

lemma recordCall_preserves:
  assumes add: "\<And>ty name d s. P s \<Longrightarrow> P (snd (addNode ty name d s))"
    and edge: "\<And>a b ty s. P s \<Longrightarrow> P (addEdge a b ty s)"
    and "P st"
  shows "P (recordCall f callee st)"
proof (cases "findVisitedNode callee Function st")
  case None
  then show ?thesis
    using add [OF \<open>P st\<close>, of Call callee None] edge
    by (simp add: recordCall_def split_beta)
next
  case (Some v)
  then show ?thesis using edge [OF \<open>P st\<close>] by (simp add: recordCall_def)
qed

lemma visitCallExpression_preserves:
  assumes add: "\<And>ty name d s. P s \<Longrightarrow> P (snd (addNode ty name d s))"
    and edge: "\<And>a b ty s. P s \<Longrightarrow> P (addEdge a b ty s)"
  shows "P st \<Longrightarrow> P (visitCallExpression f n st)"
proof (induction f n st rule: visitCallExpression.induct)
  case (1 f n st)
  show ?case
  proof (cases "calledFunction n")
    case None
    have "P (fold (visitCallExpression f) (forEachChild n) st)"
      using "1.IH"(1) [OF None] "1.prems" by (rule fold_preserves [where P = P])
    with None show ?thesis by (subst visitCallExpression.simps) simp
  next
    case (Some callee)
    show ?thesis
    proof (cases "isExternalPackageCall callee")
      case True
      with Some "1.prems" show ?thesis by (subst visitCallExpression.simps) simp
    next
      case False
      have "P (recordCall f callee st)"
        using add edge "1.prems" by (rule recordCall_preserves)
      then have "P (fold (visitCallExpression f) (forEachChild n) (recordCall f callee st))"
        by (rule fold_preserves [where P = P, rotated]) (rule "1.IH"(2) [OF Some False])
      with Some False show ?thesis by (subst visitCallExpression.simps) simp
    qed
  qed
qed

lemma classHeritageType_preserves:
  assumes add: "\<And>ty name d s. P s \<Longrightarrow> P (snd (addNode ty name d s))"
    and edge: "\<And>a b ty s. P s \<Longrightarrow> P (addEdge a b ty s)"
    and "P st"
  shows "P (classHeritageType i token e st)"
  using add [OF \<open>P st\<close>] edge by (simp add: classHeritageType_def split_beta)

lemma interfaceHeritageType_preserves:
  assumes add: "\<And>ty name d s. P s \<Longrightarrow> P (snd (addNode ty name d s))"
    and edge: "\<And>a b ty s. P s \<Longrightarrow> P (addEdge a b ty s)"
    and "P st"
  shows "P (interfaceHeritageType i e st)"
  using add [OF \<open>P st\<close>] edge by (simp add: interfaceHeritageType_def split_beta)

lemma classMember_preserves:
  assumes add: "\<And>ty name d s. P s \<Longrightarrow> P (snd (addNode ty name d s))"
    and edge: "\<And>a b ty s. P s \<Longrightarrow> P (addEdge a b ty s)"
    and "P st"
  shows "P (classMember i m st)"
proof (cases m)
  case (MethodDeclaration t name ps b)
  have *: "P (addEdge i (fst (addNode Function name None st)) Default
              (snd (addNode Function name None st)))"
    using add [OF \<open>P st\<close>] edge by simp
  show ?thesis
  proof (cases b)
    case None
    with MethodDeclaration * show ?thesis by (simp add: split_beta)
  next
    case (Some bd)
    with MethodDeclaration visitCallExpression_preserves [of P, OF add edge *]
    show ?thesis by (simp add: split_beta analyzeFunctionBody_def)
  qed
qed (use \<open>P st\<close> in simp_all)

lemma visitDeclaration_preserves:
  assumes add: "\<And>ty name d s. P s \<Longrightarrow> P (snd (addNode ty name d s))"
    and edge: "\<And>a b ty s. P s \<Longrightarrow> P (addEdge a b ty s)"
    and "P st"
  shows "P (visitDeclaration n st)"
proof (cases n)
  case (FunctionDeclaration t name ps ty b)
  show ?thesis
  proof (cases b)
    case None
    with FunctionDeclaration add [OF \<open>P st\<close>] show ?thesis
      by (simp add: split_beta Let_def)
  next
    case (Some bd)
    with FunctionDeclaration visitCallExpression_preserves [of P, OF add edge add [OF \<open>P st\<close>]]
    show ?thesis by (simp add: split_beta Let_def analyzeFunctionBody_def)
  qed
next
  case (ClassDeclaration t name hs ms)
  let ?r = "addNode Class (or_else name ''anonymous'') None st"
  have 1: "P (snd ?r)" using add [OF \<open>P st\<close>] .
  have 2: "P (fold (\<lambda>(token, types). fold (classHeritageType (fst ?r) token) types) hs (snd ?r))"
    using classHeritageType_preserves [of P, OF add edge] 1
    by (rule heritage_fold_preserves [where P = P])
  have "P (fold (classMember (fst ?r)) ms
            (fold (\<lambda>(token, types). fold (classHeritageType (fst ?r) token) types) hs (snd ?r)))"
    using classMember_preserves [of P, OF add edge] 2
    by (rule fold_preserves [where P = P])
  with ClassDeclaration show ?thesis by (simp add: split_beta Let_def)
next
  case (InterfaceDeclaration t name hs ms)
  let ?r = "addNode Interface name None st"
  have 1: "P (snd ?r)" using add [OF \<open>P st\<close>] .
  have "P (fold (\<lambda>(token, types). fold (interfaceHeritageType (fst ?r)) types) hs (snd ?r))"
    using interfaceHeritageType_preserves [of P, OF add edge] 1
    by (rule heritage_fold_preserves [where P = P and g = "\<lambda>token. interfaceHeritageType (fst ?r)"])
  with InterfaceDeclaration show ?thesis by (simp add: split_beta Let_def)
qed (use \<open>P st\<close> in simp_all)

lemma visitNode_preserves:
  assumes add: "\<And>ty name d s. P s \<Longrightarrow> P (snd (addNode ty name d s))"
    and edge: "\<And>a b ty s. P s \<Longrightarrow> P (addEdge a b ty s)"
  shows "P st \<Longrightarrow> P (visitNode n st)"
proof (induction n st rule: visitNode.induct)
  case (1 n st)
  have "P (visitDeclaration n st)"
    using add edge "1.prems" by (rule visitDeclaration_preserves)
  then have "P (fold visitNode (forEachChild n) (visitDeclaration n st))"
    by (rule fold_preserves [where P = P, rotated]) (rule "1.IH")
  then show ?case by (subst visitNode.simps)
qed

subsection \<open>What \<open>addNode\<close> and \<open>addEdge\<close> do\<close>

lemma addNode_existing:
  "findVisitedNode name ty st = Some v \<Longrightarrow> addNode ty name d st = (visited_id v, st)"
  by (simp add: addNode_def)

lemma edges_addNode: "edges (snd (addNode ty name d st)) = edges st"
  by (simp add: addNode_def createNodeId_def Let_def split: option.splits)

lemma findVisitedNode_addEdge:
  "findVisitedNode name ty (addEdge a b k st) = findVisitedNode name ty st"
  by (simp add: findVisitedNode_def addEdge_def)

lemma visitedNodes_addNode_new:
  "findVisitedNode name ty st = None \<Longrightarrow>
     visitedNodes (snd (addNode ty name d st)) =
       visitedNodes st @ [\<lparr>visited_id = fst (addNode ty name d st), visited_name = name,
                          visited_type = ty\<rparr>]"
  by (simp add: addNode_def createNodeId_def Let_def)

lemma nodes_addNode_new:
  "findVisitedNode name ty st = None \<Longrightarrow>
     nodes (snd (addNode ty name d st)) =
       nodes st @ [\<lparr>node_id = fst (addNode ty name d st), node_type = ty, data_label = name,
                    data_details = d, position_x = currentX st, position_y = currentY st\<rparr>]"
  by (simp add: addNode_def createNodeId_def Let_def)

lemma cursor_addNode_new:
  "findVisitedNode name ty st = None \<Longrightarrow>
     currentY (snd (addNode ty name d st)) =
       (if currentY st + 100 > 500 then 0 else currentY st + 100) \<and>
     currentX (snd (addNode ty name d st)) =
       (if currentY st + 100 > 500 then currentX st + 250 else currentX st)"
  by (simp add: addNode_def createNodeId_def Let_def)

lemma findVisitedNode_addNode:
  "\<exists>v. findVisitedNode name ty (snd (addNode ty name d st)) = Some v \<and>
       visited_id v = fst (addNode ty name d st)"
proof (cases "findVisitedNode name ty st")
  case None
  then have "find (\<lambda>node. visited_name node = name \<and> visited_type node = ty) (visitedNodes st)
      = None"
    by (simp add: findVisitedNode_def)
  then show ?thesis
    using visitedNodes_addNode_new [OF None, of d]
    by (simp add: findVisitedNode_def find_append_first)
next
  case (Some v)
  then show ?thesis by (simp add: addNode_existing)
qed

lemma findVisitedNode_addNode_other:
  "ty' \<noteq> ty \<Longrightarrow>
     findVisitedNode name' ty' (snd (addNode ty name d st)) = findVisitedNode name' ty' st"
proof (cases "findVisitedNode name ty st")
  case None
  assume "ty' \<noteq> ty"
  then show ?thesis
    using visitedNodes_addNode_new [OF None, of d]
    by (simp add: findVisitedNode_def find_append_first split: option.splits)
next
  case (Some v)
  then show ?thesis by (simp add: addNode_existing)
qed

lemma recordCall_edges:
  "edges (recordCall f callee st) =
     edges st @ [\<lparr>edge_id = ''edge-'' @ f @ ''-'' @ calleeNodeId callee st, edge_source = f,
                  edge_target = calleeNodeId callee st, edge_type = Calls\<rparr>]"
proof (cases "findVisitedNode callee Function st")
  case None
  then show ?thesis
    using edges_addNode [of Call callee None st]
    by (simp add: recordCall_def calleeNodeId_def split_beta addEdge_def)
next
  case (Some v)
  then show ?thesis by (simp add: recordCall_def calleeNodeId_def addEdge_def)
qed

lemma calleeNodeId_recordCall:
  "calleeNodeId callee (recordCall f callee st) = calleeNodeId callee st"
proof (cases "findVisitedNode callee Function st")
  case None
  let ?r = "addNode Call callee None st"
  obtain v where v: "findVisitedNode callee Call (snd ?r) = Some v" "visited_id v = fst ?r"
    using findVisitedNode_addNode [of callee Call None st] by blast
  have "findVisitedNode callee Function (snd ?r) = None"
    using None by (simp add: findVisitedNode_addNode_other)
  then have "calleeNodeId callee (recordCall f callee st) =
      fst (addNode Call callee None (addEdge f (fst ?r) Calls (snd ?r)))"
    using None by (simp add: recordCall_def calleeNodeId_def split_beta findVisitedNode_addEdge)
  also have "\<dots> = visited_id v"
    using v(1) by (simp add: addNode_def findVisitedNode_addEdge)
  finally show ?thesis using None v(2) by (simp add: calleeNodeId_def)
next
  case (Some v)
  then show ?thesis
    by (simp add: recordCall_def calleeNodeId_def findVisitedNode_addEdge)
qed


subsection \<open>Labels of function declarations\<close>

text \<open>A name without a dot has one piece, so the label is the fallback.\<close>

lemma split_str_no_separator: "sep \<notin> set s \<Longrightarrow> split_str s sep = [s]"
  by (induction s) auto

lemma functionName_without_dot:
  "CHR ''.'' \<notin> set n \<Longrightarrow>
     or_else (at_index (split_str n CHR ''.'') 1) ''anonymous'' = ''anonymous''"
  by (simp add: split_str_no_separator at_index_def or_else_def)

lemma functionName_with_dot:
  "or_else (at_index (split_str ''a.b'' CHR ''.'') 1) ''anonymous'' = ''b''"
  by (simp add: at_index_def or_else_def)

text \<open>
  C1: the claim is that the node of a named function declaration is labelled with the
  function's name. The code takes the second piece of the name split at dots, which a
  plain identifier does not have, and falls back to \<open>anonymous\<close>: the declaration
  \<^verbatim>\<open>function foo() {}\<close> gets the label \<open>anonymous\<close>, not \<open>foo\<close>.
\<close>

theorem analyze_named_function_is_anonymous:
  "map data_label (result_nodes (fst (analyze
      (\<lambda>src. Other SourceFile src
         [FunctionDeclaration src (Some ''foo'') [] None (Some (Other Block ''{}'' []))])
      ''function foo() {}'' st))) = [''anonymous'']"
  by (simp add: analyze_def reset_def visitNode.simps visitCallExpression.simps
      analyzeFunctionBody_def addNode_def findVisitedNode_def createNodeId_def
      or_else_def at_index_def Let_def)

subsection \<open>Call discovery as a fold\<close>

text \<open>
  \<^const>\<open>analyzeFunctionBody\<close> applies \<^const>\<open>recordCall\<close> to the recorded calls of the
  body, one after the other; a callee that is indexed keeps its node from then on.
\<close>

lemma fold_visitCallExpression:
  assumes "\<And>c s. c \<in> set cs \<Longrightarrow>
      visitCallExpression f c s = fold (recordCall f) (recordedCalls c) s"
  shows "fold (visitCallExpression f) cs st =
      fold (recordCall f) (concat (map recordedCalls cs)) st"
  using assms by (induction cs arbitrary: st) simp_all

lemma visitCallExpression_fold:
  "visitCallExpression f n st = fold (recordCall f) (recordedCalls n) st"
proof (induction f n st rule: visitCallExpression.induct)
  case (1 f n st)
  show ?case
  proof (cases "calledFunction n")
    case None
    have "fold (visitCallExpression f) (forEachChild n) st =
        fold (recordCall f) (concat (map recordedCalls (forEachChild n))) st"
      by (rule fold_visitCallExpression) (rule "1.IH"(1) [OF None])
    with None show ?thesis
      by (subst visitCallExpression.simps, subst recordedCalls.simps) simp
  next
    case (Some callee)
    show ?thesis
    proof (cases "isExternalPackageCall callee")
      case True
      with Some show ?thesis
        by (subst visitCallExpression.simps, subst recordedCalls.simps) simp
    next
      case False
      have "fold (visitCallExpression f) (forEachChild n) (recordCall f callee st) =
          fold (recordCall f) (concat (map recordedCalls (forEachChild n)))
            (recordCall f callee st)"
        by (rule fold_visitCallExpression) (rule "1.IH"(2) [OF Some False])
      with Some False show ?thesis
        by (subst visitCallExpression.simps, subst recordedCalls.simps) simp
    qed
  qed
qed

lemma analyzeFunctionBody_fold:
  "analyzeFunctionBody b f st = fold (recordCall f) (recordedCalls b) st"
  by (simp add: analyzeFunctionBody_def visitCallExpression_fold)

lemma findVisitedNode_recordCall_Function:
  "findVisitedNode c Function (recordCall f c' st) = findVisitedNode c Function st"
  by (cases "findVisitedNode c' Function st")
    (simp_all add: recordCall_def split_beta findVisitedNode_addEdge
      findVisitedNode_addNode_other)

lemma findVisitedNode_addNode_kept:
  "findVisitedNode name' ty' st = Some v \<Longrightarrow>
     findVisitedNode name' ty' (snd (addNode ty name d st)) = Some v"
proof (cases "findVisitedNode name ty st")
  case None
  assume "findVisitedNode name' ty' st = Some v"
  then show ?thesis
    using visitedNodes_addNode_new [OF None, of d]
    by (simp add: findVisitedNode_def find_append_first)
next
  case (Some w)
  assume "findVisitedNode name' ty' st = Some v"
  with Some show ?thesis by (simp add: addNode_existing)
qed

lemma findVisitedNode_recordCall_kept:
  "findVisitedNode c ty st = Some v \<Longrightarrow> findVisitedNode c ty (recordCall f c' st) = Some v"
  by (cases "findVisitedNode c' Function st")
    (simp_all add: recordCall_def split_beta findVisitedNode_addEdge
      findVisitedNode_addNode_kept)

lemma calleeNodeId_Call:
  "findVisitedNode c Function st = None \<Longrightarrow> findVisitedNode c Call st = Some v \<Longrightarrow>
     calleeNodeId c st = visited_id v"
  by (simp add: calleeNodeId_def addNode_existing)

lemma calleeNodeId_Function:
  "findVisitedNode c Function st = Some v \<Longrightarrow> calleeNodeId c st = visited_id v"
  by (simp add: calleeNodeId_def)

lemma recordCall_stable:
  assumes "indexed c st"
  shows "indexed c (recordCall f c' st) \<and> calleeNodeId c (recordCall f c' st) = calleeNodeId c st"
proof (cases "findVisitedNode c Function st")
  case (Some v)
  then have "findVisitedNode c Function (recordCall f c' st) = Some v"
    by (simp add: findVisitedNode_recordCall_Function)
  with Some show ?thesis by (simp add: indexed_def calleeNodeId_Function)
next
  case None
  with assms obtain v where v: "findVisitedNode c Call st = Some v"
    by (auto simp: indexed_def)
  then have v': "findVisitedNode c Call (recordCall f c' st) = Some v"
    by (rule findVisitedNode_recordCall_kept)
  have "findVisitedNode c Function (recordCall f c' st) = None"
    using None by (simp add: findVisitedNode_recordCall_Function)
  with None v v' show ?thesis by (simp add: indexed_def calleeNodeId_Call)
qed

lemma indexed_recordCall: "indexed c (recordCall f c st)"
proof (cases "findVisitedNode c Function st")
  case (Some v)
  then show ?thesis by (simp add: indexed_def findVisitedNode_recordCall_Function)
next
  case None
  obtain v where "findVisitedNode c Call (snd (addNode Call c None st)) = Some v"
    using findVisitedNode_addNode [of c Call None st] by blast
  with None show ?thesis
    by (simp add: indexed_def recordCall_def split_beta findVisitedNode_addEdge)
qed

lemma fold_recordCall_stable:
  "indexed c st \<Longrightarrow>
     indexed c (fold (recordCall f) cs st) \<and>
     calleeNodeId c (fold (recordCall f) cs st) = calleeNodeId c st"
proof (induction cs arbitrary: st)
  case Nil
  then show ?case by simp
next
  case (Cons c' cs)
  from recordCall_stable [OF Cons.prems, of f c']
  have 1: "indexed c (recordCall f c' st)"
    and 2: "calleeNodeId c (recordCall f c' st) = calleeNodeId c st" by simp_all
  from Cons.IH [OF 1] 2 show ?case by simp
qed

lemma calleeNodeId_fold_recordCall:
  "calleeNodeId c (fold (recordCall f) cs (recordCall f c st)) = calleeNodeId c st"
  using fold_recordCall_stable [OF indexed_recordCall [of c f st], of f cs]
  by (simp add: calleeNodeId_recordCall)

lemma fold_recordCall_edges:
  "edges (fold (recordCall f) cs st) =
     edges st @ map (\<lambda>c. callsEdge f (calleeNodeId c (fold (recordCall f) cs st))) cs"
proof (induction cs arbitrary: st)
  case Nil
  then show ?case by simp
next
  case (Cons c cs)
  have "edges (fold (recordCall f) (c # cs) st) =
      edges (recordCall f c st) @
        map (\<lambda>c'. callsEdge f (calleeNodeId c' (fold (recordCall f) (c # cs) st))) cs"
    using Cons.IH [of "recordCall f c st"] by simp
  moreover have "edges (recordCall f c st) =
      edges st @ [callsEdge f (calleeNodeId c (fold (recordCall f) (c # cs) st))]"
    by (simp add: recordCall_edges callsEdge_def calleeNodeId_fold_recordCall)
  ultimately show ?case by simp
qed

lemma recordedCalls_call:
  "\<not> isExternalPackageCall (getText e) \<Longrightarrow>
     recordedCalls (CallExpression t e args) =
       getText e # recordedCalls e @ concat (map recordedCalls args)"
  by (subst recordedCalls.simps) simp

lemma recordedCalls_external:
  "isExternalPackageCall (getText e) \<Longrightarrow> recordedCalls (CallExpression t e args) = []"
  by (subst recordedCalls.simps) simp

lemma recordedCalls_Other:
  "recordedCalls (Other k t cs) = concat (map recordedCalls cs)"
  by (subst recordedCalls.simps) simp









subsection \<open>External calls\<close>








subsection \<open>Edges\<close>

text \<open>The body \<^verbatim>\<open>{ f(); f(); }\<close> records \<open>f\<close> twice unless the heuristic drops it.\<close>

lemma recordedCalls_two_calls:
  "recordedCalls e = [] \<Longrightarrow>
     recordedCalls
       (Other Block tb
          [Other ExpressionStatement t1 [CallExpression t1' e []],
           Other ExpressionStatement t2 [CallExpression t2' e []]]) =
     (if isExternalPackageCall (getText e) then [] else [getText e, getText e])"
  by (simp add: recordedCalls_Other recordedCalls_call recordedCalls_external)

text \<open>
  C5, as the claim states it: a method body with two calls to the same function would
  yield two \<open>calls\<close> edges. For \<^verbatim>\<open>class A { m() { this.helper(); this.helper(); } }\<close>
  the heuristic drops both calls (a lowercase letter, then a dot), and the only edge of
  the run is the one from the class to its method.
\<close>

theorem two_dropped_calls_add_no_edge:
  "result_edges (fst (analyze
      (\<lambda>src. Other SourceFile src
         [ClassDeclaration src (Some ''A'') []
            [MethodDeclaration ''m() { this.helper(); this.helper(); }'' ''m'' []
               (Some (Other Block ''{ this.helper(); this.helper(); }''
                  [Other ExpressionStatement ''this.helper();''
                     [CallExpression ''this.helper()''
                        (Other PropertyAccessExpression ''this.helper''
                           [Other OtherSyntax ''this'' [], Other Identifier ''helper'' []])
                        []],
                   Other ExpressionStatement ''this.helper();''
                     [CallExpression ''this.helper()''
                        (Other PropertyAccessExpression ''this.helper''
                           [Other OtherSyntax ''this'' [], Other Identifier ''helper'' []])
                        []]]))]])
      ''class A { m() { this.helper(); this.helper(); } }'' newAnalyzer)) =
   [\<lparr>edge_id = ''edge-node-1-node-2'', edge_source = ''node-1'',
     edge_target = ''node-2'', edge_type = Default\<rparr>]"
  by (simp add: analyze_def reset_def newAnalyzer_def visitNode.simps
      visitCallExpression.simps analyzeFunctionBody_def addNode_def addEdge_def
      findVisitedNode_def createNodeId_def or_else_def Let_def
      isExternalPackageCall_def packagesToIgnore_def startsWith_def lowercaseThenDot_def
      isLineTerminator_def string_of_nat.simps digit_def)

text \<open>
  C5, amended: \<^const>\<open>addEdge\<close> always appends an edge whose identifier is built from the
  source and the target; \<^const>\<open>analyzeFunctionBody\<close> appends one \<open>calls\<close> edge for every
  call it records, from the method to the callee's node, so a body whose recorded calls
  are two calls to the same function gets two equal \<open>calls\<close> edges, and a body whose
  calls are all dropped leaves the analyzer as it was.
\<close>

theorem edges_are_not_deduplicated:
  "edges (addEdge src tgt ty st) =
     edges st @ [\<lparr>edge_id = ''edge-'' @ src @ ''-'' @ tgt, edge_source = src,
                  edge_target = tgt, edge_type = ty\<rparr>] \<and>
   edges (analyzeFunctionBody b methodId st) =
     edges st @
       map (\<lambda>c. callsEdge methodId (calleeNodeId c (analyzeFunctionBody b methodId st)))
         (recordedCalls b) \<and>
   (recordedCalls b = [callee, callee] \<longrightarrow>
      edges (analyzeFunctionBody b methodId st) =
        edges st @
          [\<lparr>edge_id = ''edge-'' @ methodId @ ''-'' @ calleeNodeId callee st,
            edge_source = methodId, edge_target = calleeNodeId callee st, edge_type = Calls\<rparr>,
           \<lparr>edge_id = ''edge-'' @ methodId @ ''-'' @ calleeNodeId callee st,
            edge_source = methodId, edge_target = calleeNodeId callee st, edge_type = Calls\<rparr>]) \<and>
   (recordedCalls b = [] \<longrightarrow> analyzeFunctionBody b methodId st = st)"
proof (intro conjI impI)
  show "edges (addEdge src tgt ty st) =
     edges st @ [\<lparr>edge_id = ''edge-'' @ src @ ''-'' @ tgt, edge_source = src,
                  edge_target = tgt, edge_type = ty\<rparr>]"
    by (simp add: addEdge_def)
  show "edges (analyzeFunctionBody b methodId st) =
     edges st @
       map (\<lambda>c. callsEdge methodId (calleeNodeId c (analyzeFunctionBody b methodId st)))
         (recordedCalls b)"
    unfolding analyzeFunctionBody_fold by (rule fold_recordCall_edges)
  show "edges (analyzeFunctionBody b methodId st) =
        edges st @
          [\<lparr>edge_id = ''edge-'' @ methodId @ ''-'' @ calleeNodeId callee st,
            edge_source = methodId, edge_target = calleeNodeId callee st, edge_type = Calls\<rparr>,
           \<lparr>edge_id = ''edge-'' @ methodId @ ''-'' @ calleeNodeId callee st,
            edge_source = methodId, edge_target = calleeNodeId callee st, edge_type = Calls\<rparr>]"
    if "recordedCalls b = [callee, callee]"
    using that by (simp add: analyzeFunctionBody_fold recordCall_edges calleeNodeId_recordCall)
  show "analyzeFunctionBody b methodId st = st" if "recordedCalls b = []"
    using that by (simp add: analyzeFunctionBody_fold)
qed

theorem edges_are_not_deduplicated_witness:
  "recordedCalls
     (Other Block ''{ helper(); helper(); }''
        [Other ExpressionStatement ''helper();''
           [CallExpression ''helper()'' (Other Identifier ''helper'' []) []],
         Other ExpressionStatement ''helper();''
           [CallExpression ''helper()'' (Other Identifier ''helper'' []) []]]) =
     [''helper'', ''helper''] \<and>
   edges (analyzeFunctionBody
            (Other Block ''{ helper(); helper(); }''
               [Other ExpressionStatement ''helper();''
                  [CallExpression ''helper()'' (Other Identifier ''helper'' []) []],
                Other ExpressionStatement ''helper();''
                  [CallExpression ''helper()'' (Other Identifier ''helper'' []) []]])
            ''node-2'' classWithMethod) =
     [\<lparr>edge_id = ''edge-node-1-node-2'', edge_source = ''node-1'',
       edge_target = ''node-2'', edge_type = Default\<rparr>,
      \<lparr>edge_id = ''edge-node-2-node-3'', edge_source = ''node-2'',
       edge_target = ''node-3'', edge_type = Calls\<rparr>,
      \<lparr>edge_id = ''edge-node-2-node-3'', edge_source = ''node-2'',
       edge_target = ''node-3'', edge_type = Calls\<rparr>] \<and>
   recordedCalls
     (Other Block ''{ total(); total(); }''
        [Other ExpressionStatement ''total();''
           [CallExpression ''total()'' (Other Identifier ''total'' []) []],
         Other ExpressionStatement ''total();''
           [CallExpression ''total()'' (Other Identifier ''total'' []) []]]) = [] \<and>
   analyzeFunctionBody
     (Other Block ''{ total(); total(); }''
        [Other ExpressionStatement ''total();''
           [CallExpression ''total()'' (Other Identifier ''total'' []) []],
         Other ExpressionStatement ''total();''
           [CallExpression ''total()'' (Other Identifier ''total'' []) []]])
     ''node-2'' classWithMethod = classWithMethod"
proof -
  have ext: "\<not> isExternalPackageCall ''helper''"
    by (simp add: isExternalPackageCall_def packagesToIgnore_def startsWith_def
        lowercaseThenDot_def isLineTerminator_def)
  have ext': "isExternalPackageCall ''total''"
    by (simp add: isExternalPackageCall_def packagesToIgnore_def startsWith_def)
  have leaf: "recordedCalls (Other Identifier t []) = []" for t
    by (simp add: recordedCalls_Other)
  have two: "recordedCalls
     (Other Block ''{ helper(); helper(); }''
        [Other ExpressionStatement ''helper();''
           [CallExpression ''helper()'' (Other Identifier ''helper'' []) []],
         Other ExpressionStatement ''helper();''
           [CallExpression ''helper()'' (Other Identifier ''helper'' []) []]]) =
     [''helper'', ''helper'']"
    using ext by (simp add: recordedCalls_two_calls leaf)
  have none: "recordedCalls
     (Other Block ''{ total(); total(); }''
        [Other ExpressionStatement ''total();''
           [CallExpression ''total()'' (Other Identifier ''total'' []) []],
         Other ExpressionStatement ''total();''
           [CallExpression ''total()'' (Other Identifier ''total'' []) []]]) = []"
    using ext' by (simp add: recordedCalls_two_calls leaf)
  have ident: "calleeNodeId ''helper'' classWithMethod = ''node-3''"
    by (simp add: calleeNodeId_def findVisitedNode_def addNode_def createNodeId_def Let_def
        classWithMethod_def string_of_nat.simps digit_def)
  have es: "edges classWithMethod =
      [\<lparr>edge_id = ''edge-node-1-node-2'', edge_source = ''node-1'',
        edge_target = ''node-2'', edge_type = Default\<rparr>]"
    by (simp add: classWithMethod_def)
  note first = edges_are_not_deduplicated
    [where callee = "''helper''" and methodId = "''node-2''" and st = classWithMethod
      and b = "Other Block ''{ helper(); helper(); }''
        [Other ExpressionStatement ''helper();''
           [CallExpression ''helper()'' (Other Identifier ''helper'' []) []],
         Other ExpressionStatement ''helper();''
           [CallExpression ''helper()'' (Other Identifier ''helper'' []) []]]"]
  note second = edges_are_not_deduplicated
    [where methodId = "''node-2''" and st = classWithMethod
      and b = "Other Block ''{ total(); total(); }''
        [Other ExpressionStatement ''total();''
           [CallExpression ''total()'' (Other Identifier ''total'' []) []],
         Other ExpressionStatement ''total();''
           [CallExpression ''total()'' (Other Identifier ''total'' []) []]]"]
  from first [THEN conjunct2, THEN conjunct2, THEN conjunct1, rule_format, OF two] ident es
  have a: "edges (analyzeFunctionBody
            (Other Block ''{ helper(); helper(); }''
               [Other ExpressionStatement ''helper();''
                  [CallExpression ''helper()'' (Other Identifier ''helper'' []) []],
                Other ExpressionStatement ''helper();''
                  [CallExpression ''helper()'' (Other Identifier ''helper'' []) []]])
            ''node-2'' classWithMethod) =
     [\<lparr>edge_id = ''edge-node-1-node-2'', edge_source = ''node-1'',
       edge_target = ''node-2'', edge_type = Default\<rparr>,
      \<lparr>edge_id = ''edge-node-2-node-3'', edge_source = ''node-2'',
       edge_target = ''node-3'', edge_type = Calls\<rparr>,
      \<lparr>edge_id = ''edge-node-2-node-3'', edge_source = ''node-2'',
       edge_target = ''node-3'', edge_type = Calls\<rparr>]"
    by simp
  from second [THEN conjunct2, THEN conjunct2, THEN conjunct2, rule_format, OF none]
  have b: "analyzeFunctionBody
     (Other Block ''{ total(); total(); }''
        [Other ExpressionStatement ''total();''
           [CallExpression ''total()'' (Other Identifier ''total'' []) []],
         Other ExpressionStatement ''total();''
           [CallExpression ''total()'' (Other Identifier ''total'' []) []]])
     ''node-2'' classWithMethod = classWithMethod"
    by simp
  from two none a b show ?thesis by simp
qed

subsection \<open>The layout cursor\<close>

lemma cursorAt_Suc:
  "cursorAt (Suc k) =
     (if snd (cursorAt k) + 100 > 500 then (fst (cursorAt k) + 250, 0)
      else (fst (cursorAt k), snd (cursorAt k) + 100))"
proof -
  have "k mod 6 < 6" by simp
  then consider "k mod 6 = 5" | "k mod 6 < 5" by linarith
  then show ?thesis
  proof cases
    case 1
    then show ?thesis by (simp add: cursorAt_def mod_Suc div_Suc)
  next
    case 2
    then show ?thesis by (simp add: cursorAt_def mod_Suc div_Suc)
  qed
qed

lemma layoutInv_addNode: "layoutInv st \<Longrightarrow> layoutInv (snd (addNode ty name d st))"
proof (cases "findVisitedNode name ty st")
  case None
  assume inv: "layoutInv st"
  then show ?thesis
    using cursor_addNode_new [OF None, of d]
    by (simp add: layoutInv_def nodes_addNode_new [OF None] cursorAt_Suc)
next
  case (Some v)
  assume "layoutInv st"
  with Some show ?thesis by (simp add: addNode_existing)
qed

lemma layoutInv_addEdge: "layoutInv st \<Longrightarrow> layoutInv (addEdge a b k st)"
  by (simp add: layoutInv_def addEdge_def)

lemma layoutInv_reset: "layoutInv (reset st)"
  by (simp add: layoutInv_def reset_def cursorAt_def)

lemma layoutInv_analyze: "layoutInv (snd (analyze createSourceFile sourceCode st))"
  unfolding analyze_def Let_def snd_conv
  by (rule visitNode_preserves [where P = layoutInv])
    (simp_all add: layoutInv_addNode layoutInv_addEdge layoutInv_reset)

lemma result_nodes_analyze:
  "result_nodes (fst (analyze createSourceFile sourceCode st)) =
     nodes (snd (analyze createSourceFile sourceCode st))"
  by (simp add: analyze_def Let_def)

lemma cursorAt_first_seven:
  "map cursorAt [0..<7] = [(0, 0), (0, 100), (0, 200), (0, 300), (0, 400), (0, 500), (250, 0)]"
  by code_simp

text \<open>
  C6: a run starts with the cursor at the origin; a new node is placed at the cursor,
  which then moves down by 100, or to the top of the next column, 250 to the right, when
  that would pass 500. So the nodes of a run stand at \<^const>\<open>cursorAt\<close> \<open>0, 1, 2, \<dots>\<close>,
  and seven nodes have the \<open>y\<close> coordinates 0, 100, 200, 300, 400, 500, 0, the seventh
  250 to the right of the first six.
\<close>

theorem layout_cursor:
  "currentX (reset st) = 0 \<and> currentY (reset st) = 0 \<and>
   (findVisitedNode name ty st = None \<longrightarrow>
      nodes (snd (addNode ty name d st)) =
        nodes st @ [\<lparr>node_id = fst (addNode ty name d st), node_type = ty, data_label = name,
                     data_details = d, position_x = currentX st, position_y = currentY st\<rparr>] \<and>
      currentY (snd (addNode ty name d st)) =
        (if currentY st + 100 > 500 then 0 else currentY st + 100) \<and>
      currentX (snd (addNode ty name d st)) =
        (if currentY st + 100 > 500 then currentX st + 250 else currentX st)) \<and>
   map (\<lambda>n. (position_x n, position_y n))
       (result_nodes (fst (analyze createSourceFile sourceCode st))) =
     map cursorAt [0..<length (result_nodes (fst (analyze createSourceFile sourceCode st)))] \<and>
   (length (result_nodes (fst (analyze createSourceFile sourceCode st))) = 7 \<longrightarrow>
      map position_y (result_nodes (fst (analyze createSourceFile sourceCode st))) =
        [0, 100, 200, 300, 400, 500, 0] \<and>
      map position_x (result_nodes (fst (analyze createSourceFile sourceCode st))) =
        [0, 0, 0, 0, 0, 0, 250])"
proof -
  let ?ns = "result_nodes (fst (analyze createSourceFile sourceCode st))"
  have run: "map (\<lambda>n. (position_x n, position_y n)) ?ns = map cursorAt [0..<length ?ns]"
    using layoutInv_analyze [of createSourceFile sourceCode st]
    by (simp add: layoutInv_def result_nodes_analyze)
  have seven: "map position_y ?ns = [0, 100, 200, 300, 400, 500, 0] \<and>
      map position_x ?ns = [0, 0, 0, 0, 0, 0, 250]" if len: "length ?ns = 7"
  proof -
    have pos: "map (\<lambda>n. (position_x n, position_y n)) ?ns =
        [(0, 0), (0, 100), (0, 200), (0, 300), (0, 400), (0, 500), (250, 0)]"
      using run len by (simp only: cursorAt_first_seven)
    have "map position_y ?ns = map snd (map (\<lambda>n. (position_x n, position_y n)) ?ns)"
      and "map position_x ?ns = map fst (map (\<lambda>n. (position_x n, position_y n)) ?ns)"
      by (simp_all add: comp_def)
    then show ?thesis by (simp only: pos) simp
  qed
  show ?thesis
    using run seven
    by (simp add: reset_def nodes_addNode_new cursor_addNode_new)
qed

lemma sevenInterfaces_labels:
  "map data_label (result_nodes (fst (analyze (\<lambda>src. sevenInterfaces) [] newAnalyzer))) =
     [''A'', ''B'', ''C'', ''D'', ''E'', ''F'', ''G'']"
  by (simp add: analyze_def reset_def newAnalyzer_def sevenInterfaces_def visitNode.simps
      addNode_def findVisitedNode_def createNodeId_def Let_def)

theorem layout_cursor_witness:
  "findVisitedNode ''A'' Interface newAnalyzer = None \<and>
   nodes (snd (addNode Interface ''A'' None newAnalyzer)) =
     [\<lparr>node_id = ''node-1'', node_type = Interface, data_label = ''A'',
       data_details = None, position_x = 0, position_y = 0\<rparr>] \<and>
   currentY (snd (addNode Interface ''A'' None newAnalyzer)) = 100 \<and>
   length (result_nodes (fst (analyze (\<lambda>src. sevenInterfaces) [] newAnalyzer))) = 7 \<and>
   map position_y (result_nodes (fst (analyze (\<lambda>src. sevenInterfaces) [] newAnalyzer))) =
     [0, 100, 200, 300, 400, 500, 0] \<and>
   map position_x (result_nodes (fst (analyze (\<lambda>src. sevenInterfaces) [] newAnalyzer))) =
     [0, 0, 0, 0, 0, 0, 250]"
proof -
  have none: "findVisitedNode ''A'' Interface newAnalyzer = None"
    by (simp add: findVisitedNode_def newAnalyzer_def)
  have first: "fst (addNode Interface ''A'' None newAnalyzer) = ''node-1''"
    by (simp add: addNode_def findVisitedNode_def newAnalyzer_def createNodeId_def Let_def
        string_of_nat.simps digit_def)
  have len: "length (result_nodes (fst (analyze (\<lambda>src. sevenInterfaces) [] newAnalyzer))) = 7"
    using arg_cong [OF sevenInterfaces_labels, of length] by simp
  from layout_cursor [where name = "''A''" and ty = Interface and st = newAnalyzer
      and d = None and createSourceFile = "\<lambda>src. sevenInterfaces" and sourceCode = "[]"]
    none first len
  show ?thesis by (simp add: newAnalyzer_def)
qed

subsection \<open>The identity index\<close>

lemma find_visitedOf_None:
  "find (\<lambda>v. visited_name v = name \<and> visited_type v = ty) (map visitedOf ns) = None \<Longrightarrow>
     (name, ty) \<notin> set (map (\<lambda>n. (data_label n, node_type n)) ns)"
  by (induction ns) (auto simp: visitedOf_def split: if_splits)

lemma find_visitedOf_Some:
  "distinct (map (\<lambda>n. (data_label n, node_type n)) ns) \<Longrightarrow> n \<in> set ns \<Longrightarrow>
     find (\<lambda>v. visited_name v = data_label n \<and> visited_type v = node_type n)
       (map visitedOf ns) = Some (visitedOf n)"
proof (induction ns)
  case Nil
  then show ?case by simp
next
  case (Cons m ns)
  show ?case
  proof (cases "n = m")
    case True
    then show ?thesis by (simp add: visitedOf_def)
  next
    case False
    with Cons.prems have n: "n \<in> set ns" by simp
    then have "(data_label n, node_type n) \<in> set (map (\<lambda>n. (data_label n, node_type n)) ns)"
      by force
    with Cons.prems(1) have "(data_label m, node_type m) \<noteq> (data_label n, node_type n)"
      by auto
    then have "\<not> (visited_name (visitedOf m) = data_label n \<and>
        visited_type (visitedOf m) = node_type n)"
      by (auto simp: visitedOf_def)
    moreover have "find (\<lambda>v. visited_name v = data_label n \<and> visited_type v = node_type n)
       (map visitedOf ns) = Some (visitedOf n)"
      using Cons.prems(1) n by (intro Cons.IH) simp_all
    ultimately show ?thesis by auto
  qed
qed

lemma identityInv_addNode: "identityInv st \<Longrightarrow> identityInv (snd (addNode ty name d st))"
proof (cases "findVisitedNode name ty st")
  case None
  assume inv: "identityInv st"
  with None have "(name, ty) \<notin> set (map (\<lambda>n. (data_label n, node_type n)) (nodes st))"
    by (intro find_visitedOf_None) (simp add: identityInv_def findVisitedNode_def)
  with inv show ?thesis
    by (simp add: identityInv_def nodes_addNode_new [OF None] visitedNodes_addNode_new [OF None]
        visitedOf_def)
next
  case (Some v)
  assume "identityInv st"
  with Some show ?thesis by (simp add: addNode_existing)
qed

lemma identityInv_addEdge: "identityInv st \<Longrightarrow> identityInv (addEdge a b k st)"
  by (simp add: identityInv_def addEdge_def)

lemma identityInv_reset: "identityInv (reset st)"
  by (simp add: identityInv_def reset_def)

lemma identityInv_analyze: "identityInv (snd (analyze createSourceFile sourceCode st))"
  unfolding analyze_def Let_def snd_conv
  by (rule visitNode_preserves [where P = identityInv])
    (simp_all add: identityInv_addNode identityInv_addEdge identityInv_reset)

lemma addNode_present:
  assumes "identityInv st" and "n \<in> set (nodes st)"
  shows "addNode (node_type n) (data_label n) d st = (node_id n, st)"
proof -
  have "findVisitedNode (data_label n) (node_type n) st = Some (visitedOf n)"
    using assms find_visitedOf_Some [of "nodes st" n]
    by (simp add: identityInv_def findVisitedNode_def)
  then show ?thesis by (simp add: addNode_existing visitedOf_def)
qed

text \<open>
  C4: the identity invariant holds when a run starts and after every \<^const>\<open>addNode\<close> and
  \<^const>\<open>addEdge\<close>; \<^const>\<open>addNode\<close> on a name and kind the index has returns the indexed
  identifier and leaves the analyzer unchanged, and under the invariant that is the
  identifier of the node with that label and kind; the nodes a run returns have pairwise
  different pairs of label and kind.
\<close>

theorem one_node_per_name_and_kind:
  "identityInv (reset st) \<and>
   (identityInv st' \<longrightarrow>
      identityInv (snd (addNode ty name d st')) \<and> identityInv (addEdge a b k st')) \<and>
   (findVisitedNode name ty st' = Some v \<longrightarrow> addNode ty name d st' = (visited_id v, st')) \<and>
   (identityInv st' \<and> n \<in> set (nodes st') \<longrightarrow>
      addNode (node_type n) (data_label n) d st' = (node_id n, st')) \<and>
   distinct (map (\<lambda>n. (data_label n, node_type n))
      (result_nodes (fst (analyze createSourceFile sourceCode st))))"
  using identityInv_analyze [of createSourceFile sourceCode st]
  by (simp add: identityInv_reset identityInv_addNode identityInv_addEdge addNode_existing
      addNode_present result_nodes_analyze)
    (simp add: identityInv_def)

theorem one_node_per_name_and_kind_witness:
  "identityInv (snd (addNode Interface ''A'' None newAnalyzer)) \<and>
   findVisitedNode ''A'' Interface (snd (addNode Interface ''A'' None newAnalyzer)) =
     Some \<lparr>visited_id = ''node-1'', visited_name = ''A'', visited_type = Interface\<rparr> \<and>
   \<lparr>node_id = ''node-1'', node_type = Interface, data_label = ''A'',
     data_details = None, position_x = 0, position_y = 0\<rparr>
     \<in> set (nodes (snd (addNode Interface ''A'' None newAnalyzer))) \<and>
   addNode Interface ''A'' None (snd (addNode Interface ''A'' None newAnalyzer)) =
     (''node-1'', snd (addNode Interface ''A'' None newAnalyzer)) \<and>
   map data_label
     (result_nodes (fst (analyze (\<lambda>src. twoInterfacesSameName) [] newAnalyzer))) = [''A'']"
proof -
  let ?st = "snd (addNode Interface ''A'' None newAnalyzer)"
  have st: "?st = \<lparr>nodes = [\<lparr>node_id = ''node-1'', node_type = Interface, data_label = ''A'',
               data_details = None, position_x = 0, position_y = 0\<rparr>],
             edges = [],
             visitedNodes = [\<lparr>visited_id = ''node-1'', visited_name = ''A'',
               visited_type = Interface\<rparr>],
             nodeCounter = 1, currentX = 0, currentY = 100\<rparr>"
    by (simp add: addNode_def findVisitedNode_def newAnalyzer_def createNodeId_def Let_def
        string_of_nat.simps digit_def)
  have inv: "identityInv ?st"
    unfolding st by (simp add: identityInv_def visitedOf_def)
  have found: "findVisitedNode ''A'' Interface ?st =
      Some \<lparr>visited_id = ''node-1'', visited_name = ''A'', visited_type = Interface\<rparr>"
    unfolding st by (simp add: findVisitedNode_def)
  have mem: "\<lparr>node_id = ''node-1'', node_type = Interface, data_label = ''A'',
      data_details = None, position_x = 0, position_y = 0\<rparr> \<in> set (nodes ?st)"
    unfolding st by simp
  have run: "map data_label
     (result_nodes (fst (analyze (\<lambda>src. twoInterfacesSameName) [] newAnalyzer))) = [''A'']"
    by (simp add: analyze_def reset_def newAnalyzer_def twoInterfacesSameName_def
        visitNode.simps addNode_def findVisitedNode_def createNodeId_def Let_def)
  from one_node_per_name_and_kind [where st' = ?st and ty = Interface and name = "''A''"
      and d = None
      and v = "\<lparr>visited_id = ''node-1'', visited_name = ''A'', visited_type = Interface\<rparr>"
      and n = "\<lparr>node_id = ''node-1'', node_type = Interface, data_label = ''A'',
        data_details = None, position_x = 0, position_y = 0\<rparr>"]
    inv found mem run
  show ?thesis by simp
qed

section \<open>Properties of the handler dependency analyzer\<close>

subsection \<open>Call types\<close>

text \<open>
  C2, as the claim states its example: \<open>dbQueueClient\<close> would classify as
  \<open>database\<close>. It does not: \<^const>\<open>determineCallType\<close> looks for
  \<open>supabaseAdmin\<close>, \<open>pg_execute\<close>, \<open>repository\<close> and \<open>dao\<close>, none of which occurs
  in \<open>dbQueueClient\<close> (the substring \<open>db\<close> is a pattern of \<^verbatim>\<open>isExternalCall\<close>
  only), and the queue test matches \<open>Queue\<close>.
\<close>

theorem determineCallType_dbQueueClient_is_queue:
  "determineCallType ''dbQueueClient'' = ''queue'' \<and>
   determineCallType ''dbQueueClient'' \<noteq> ''database''"
  by (simp add: determineCallType_def)

text \<open>
  C2, amended: \<^const>\<open>determineCallType\<close> is the first match in the rule table, in the
  order database, api, queue, service, utility, and \<open>unknown\<close> otherwise; so a target
  with a database substring classifies as \<open>database\<close> whatever else it contains, as
  \<open>daoQueueClient\<close> does, which also contains \<open>Queue\<close> and \<open>Client\<close>.
\<close>

theorem determineCallType_priority:
  "determineCallType target = firstMatch callTypeRules target \<and>
   (list_ex (includes_str target) [''supabaseAdmin'', ''pg_execute'', ''repository'', ''dao'']
      \<longrightarrow> determineCallType target = ''database'') \<and>
   determineCallType ''daoQueueClient'' = ''database''"
  by (simp add: determineCallType_def callTypeRules_def)

theorem determineCallType_priority_witness:
  "list_ex (includes_str ''repositoryQueue'')
     [''supabaseAdmin'', ''pg_execute'', ''repository'', ''dao''] \<and>
   includes_str ''repositoryQueue'' ''Queue'' \<and>
   determineCallType ''repositoryQueue'' = ''database''"
  using determineCallType_priority [of "''repositoryQueue''"] by (simp add: callTypeRules_def)

subsection \<open>The first class declaration\<close>

lemma find_concat: "find P (concat xss) = firstResult (find P) xss"
  by (induction xss) (auto simp: find_append_first split: option.splits)

lemma firstResult_map: "firstResult f (map g xs) = firstResult (\<lambda>x. f (g x)) xs"
  by (induction xs) (auto split: option.splits)

lemma firstResult_bind:
  assumes "\<And>x y. x \<in> set xs \<Longrightarrow> f x = Some y \<Longrightarrow> g y \<noteq> None"
  shows "firstResult (\<lambda>x. Option.bind (f x) g) xs = Option.bind (firstResult f xs) g"
  using assms
proof (induction xs)
  case Nil
  then show ?case by simp
next
  case (Cons x xs)
  show ?case
  proof (cases "f x")
    case None
    have "firstResult (\<lambda>x. Option.bind (f x) g) xs = Option.bind (firstResult f xs) g"
      by (rule Cons.IH) (rule Cons.prems, simp_all)
    with None show ?thesis by simp
  next
    case (Some y)
    with Cons.prems [of x y] obtain r where "g y = Some r" by auto
    with Some show ?thesis by simp
  qed
qed

lemma visitClass_class: "isClassDeclaration c \<Longrightarrow> visitClass h c \<noteq> None"
  by (cases c) (simp_all add: Let_def)

lemma visitClass_not_class: "\<not> isClassDeclaration c \<Longrightarrow> visitClass h c = None"
  by (cases c) simp_all

lemma visit_first_class:
  "visit h n =
     Option.bind (find isClassDeclaration (preorder n))
       (\<lambda>c. map_option (\<lambda>d. [d]) (visitClass h c))"
proof (induction h n rule: visit.induct)
  case (1 h n)
  show ?case
  proof (cases "isClassDeclaration n")
    case True
    then obtain d where d: "visitClass h n = Some d"
      using visitClass_class [of n h] by auto
    have "find isClassDeclaration (preorder n) = Some n"
      using True by (subst preorder.simps) simp
    with d show ?thesis by (subst visit.simps) simp
  next
    case False
    then have none: "visitClass h n = None" by (rule visitClass_not_class)
    let ?g = "\<lambda>c. map_option (\<lambda>d. [d]) (visitClass h c)"
    have "visit h n = firstResult (visit h) (getChildren n)"
      using none by (subst visit.simps) simp
    also have "\<dots> = firstResult (\<lambda>c. Option.bind (find isClassDeclaration (preorder c)) ?g)
                      (getChildren n)"
      using "1.IH" [OF none] by (intro firstResult_cong) auto
    also have "\<dots> = Option.bind
        (firstResult (\<lambda>c. find isClassDeclaration (preorder c)) (getChildren n)) ?g"
      by (rule firstResult_bind) (auto simp: find_Some_iff dest: visitClass_class)
    also have "firstResult (\<lambda>c. find isClassDeclaration (preorder c)) (getChildren n)
        = find isClassDeclaration (preorder n)"
      using False
      by (subst (2) preorder.simps) (simp add: find_concat firstResult_map getChildren_def)
    finally show ?thesis .
  qed
qed

lemma fold_handlerMethod_id:
  "fold handlerMethod ms (h\<lparr>handler_id := x\<rparr>) = (fold handlerMethod ms h)\<lparr>handler_id := x\<rparr>"
proof (induction ms arbitrary: h)
  case Nil
  then show ?case by simp
next
  case (Cons m ms)
  have "handlerMethod m (h\<lparr>handler_id := x\<rparr>) = (handlerMethod m h)\<lparr>handler_id := x\<rparr>"
    by (cases m) simp_all
  with Cons.IH show ?case by simp
qed

lemma fold_handlerMethod_handler:
  "data_handler (fold handlerMethod ms h) = data_handler h"
proof (induction ms arbitrary: h)
  case Nil
  then show ?case by simp
next
  case (Cons m ms)
  have "data_handler (handlerMethod m h) = data_handler h"
    by (cases m) simp_all
  with Cons.IH show ?case by simp
qed

lemma visitClass_withDependencies:
  "visitClass h (ClassDeclaration t name hs ms) =
     Some (fold handlerMethod (filter isMethodDeclaration ms) (withDependencies h name ms))"
  by (simp add: Let_def withDependencies_def split: option.splits)

lemma withDependencies_id:
  "withDependencies (h\<lparr>handler_id := x\<rparr>) name ms = (withDependencies h name ms)\<lparr>handler_id := x\<rparr>"
  by (simp add: withDependencies_def split: option.splits)

lemma visitClass_id:
  "visitClass (h\<lparr>handler_id := x\<rparr>) c = map_option (\<lambda>d. d\<lparr>handler_id := x\<rparr>) (visitClass h c)"
proof (cases c)
  case (ClassDeclaration t name hs ms)
  then show ?thesis
    by (simp only: visitClass_withDependencies withDependencies_id fold_handlerMethod_id
        option.map)
qed simp_all

lemma visitClass_handler:
  "visitClass h (ClassDeclaration t name hs ms) = Some d \<Longrightarrow> data_handler d = or_else name []"
  unfolding visitClass_withDependencies
  by (auto simp: fold_handlerMethod_handler withDependencies_def split: option.splits)

lemma handlerNode_id: "handlerNode uuid = (handlerNode uuid')\<lparr>handler_id := uuid\<rparr>"
  by (simp add: handlerNode_def)

text \<open>
  C7: \<^const>\<open>analyzeHandler\<close> returns \<^verbatim>\<open>null\<close> exactly when no node of the tree is a
  class declaration; otherwise its result is the one descriptor that the class branch
  builds from the first class declaration in top-down depth-first order, whatever
  classes come later.
\<close>

theorem analyzeHandler_first_class:
  "(analyzeHandler uuid sourceFile = None) =
     (\<not> list_ex isClassDeclaration (preorder sourceFile)) \<and>
   analyzeHandler uuid sourceFile =
     Option.bind (find isClassDeclaration (preorder sourceFile))
       (\<lambda>c. map_option (\<lambda>d. [d]) (visitClass (handlerNode uuid) c))"
proof
  have "(analyzeHandler uuid sourceFile = None) =
     (find isClassDeclaration (preorder sourceFile) = None)"
  proof (cases "find isClassDeclaration (preorder sourceFile)")
    case None
    then show ?thesis by (simp add: analyzeHandler_def visit_first_class)
  next
    case (Some c)
    then have "isClassDeclaration c" by (auto simp: find_Some_iff)
    then obtain d where "visitClass (handlerNode uuid) c = Some d"
      using visitClass_class [of c "handlerNode uuid"] by auto
    with Some show ?thesis by (simp add: analyzeHandler_def visit_first_class)
  qed
  then show "(analyzeHandler uuid sourceFile = None) =
     (\<not> list_ex isClassDeclaration (preorder sourceFile))"
    by (auto simp: find_None_iff list_ex_iff)
  show "analyzeHandler uuid sourceFile =
     Option.bind (find isClassDeclaration (preorder sourceFile))
       (\<lambda>c. map_option (\<lambda>d. [d]) (visitClass (handlerNode uuid) c))"
    by (simp add: analyzeHandler_def visit_first_class)
qed

text \<open>An example with two classes: the descriptor is that of the first, with its last
  method.\<close>

lemma analyzeHandler_two_classes:
  "map_option (map (\<lambda>d. (data_handler d, data_method d)))
     (analyzeHandler uuid
        (Other SourceFile []
           [ClassDeclaration ''class A { f() {} g() {} }'' (Some ''A'') []
              [MethodDeclaration ''f() {}'' ''f'' [] (Some (Other Block ''{}'' [])),
               MethodDeclaration ''g() {}'' ''g'' [] (Some (Other Block ''{}'' []))],
            ClassDeclaration ''class B { h() {} }'' (Some ''B'') []
              [MethodDeclaration ''h() {}'' ''h'' [] (Some (Other Block ''{}'' []))]])) =
   Some [(''A'', ''g'')]"
  by (simp add: analyzeHandler_def visit.simps getChildren_def handlerNode_def or_else_def
      Let_def)

text \<open>
  C10: when the first class declaration has no name, the handler name of the returned
  descriptor is the empty string.
\<close>

theorem analyzeHandler_unnamed_class:
  assumes "find isClassDeclaration (preorder sourceFile) = Some (ClassDeclaration t None hs ms)"
  shows "\<exists>d. analyzeHandler uuid sourceFile = Some [d] \<and> data_handler d = []"
proof -
  obtain d where d: "visitClass (handlerNode uuid) (ClassDeclaration t None hs ms) = Some d"
    using visitClass_class [of "ClassDeclaration t None hs ms" "handlerNode uuid"] by auto
  then have "data_handler d = or_else None []" by (rule visitClass_handler)
  then have "data_handler d = []" by (simp add: or_else_def)
  moreover have "analyzeHandler uuid sourceFile = Some [d]"
    using assms d by (simp add: analyzeHandler_def visit_first_class)
  ultimately show ?thesis by blast
qed

theorem analyzeHandler_unnamed_class_witness:
  "find isClassDeclaration
     (preorder (Other SourceFile ''class { run() {} }''
        [ClassDeclaration ''class { run() {} }'' None []
           [MethodDeclaration ''run() {}'' ''run'' [] (Some (Other Block ''{}'' []))]])) =
     Some (ClassDeclaration ''class { run() {} }'' None []
           [MethodDeclaration ''run() {}'' ''run'' [] (Some (Other Block ''{}'' []))]) \<and>
   (\<exists>d. analyzeHandler ''u''
          (Other SourceFile ''class { run() {} }''
            [ClassDeclaration ''class { run() {} }'' None []
               [MethodDeclaration ''run() {}'' ''run'' [] (Some (Other Block ''{}'' []))]]) =
          Some [d] \<and> data_handler d = [])"
proof -
  have f: "find isClassDeclaration
     (preorder (Other SourceFile ''class { run() {} }''
        [ClassDeclaration ''class { run() {} }'' None []
           [MethodDeclaration ''run() {}'' ''run'' [] (Some (Other Block ''{}'' []))]])) =
     Some (ClassDeclaration ''class { run() {} }'' None []
           [MethodDeclaration ''run() {}'' ''run'' [] (Some (Other Block ''{}'' []))])"
    by (simp add: preorder.simps)
  from analyzeHandler_unnamed_class [OF f, of "''u''"] f show ?thesis by blast
qed

subsection \<open>Method complexity\<close>

text \<open>
  C8: the claim is that \<^const>\<open>analyzeMethodComplexity\<close> returns normally for a method
  declaration without a body. The code throws there: \<^verbatim>\<open>visit(node.body!)\<close> is
  \<^verbatim>\<open>visit(undefined)\<close>.
\<close>

theorem analyzeMethodComplexity_without_body:
  "analyzeMethodComplexity (MethodDeclaration t name ps None) = Inl TypeError"
  by (simp add: analyzeMethodComplexity_def)

text \<open>With a body there is a result.\<close>

lemma analyzeMethodComplexity_with_body:
  "\<exists>m. analyzeMethodComplexity (MethodDeclaration t name ps (Some b)) = Inr m"
  by (simp add: analyzeMethodComplexity_def Let_def)

section \<open>Independence of earlier calls\<close>

text \<open>
  C9, as the claim states it for \<^const>\<open>analyzeHandler\<close>: two invocations on the same
  tree would return equal results. They differ in the identifier as soon as
  \<^verbatim>\<open>crypto.randomUUID()\<close> returns two different values.
\<close>

theorem analyzeHandler_depends_on_uuid:
  "analyzeHandler ''uuid-1''
     (Other SourceFile ''class A {}'' [ClassDeclaration ''class A {}'' (Some ''A'') [] []]) \<noteq>
   analyzeHandler ''uuid-2''
     (Other SourceFile ''class A {}'' [ClassDeclaration ''class A {}'' (Some ''A'') [] []])"
  by (simp add: analyzeHandler_def visit.simps getChildren_def handlerNode_def Let_def)

text \<open>
  C9, amended: the result of \<^const>\<open>analyze\<close> does not depend on the state an earlier
  call left in the instance, and the result of \<^const>\<open>analyzeHandler\<close> is a function of
  the tree except for the identifier, which is the value drawn in that call.
\<close>

theorem analyze_pure_analyzeHandler_pure_up_to_id:
  "fst (analyze createSourceFile sourceCode st) = fst (analyze createSourceFile sourceCode st') \<and>
   analyzeHandler uuid sourceFile =
     map_option (map (\<lambda>d. d\<lparr>handler_id := uuid\<rparr>)) (analyzeHandler uuid' sourceFile)"
proof
  have "reset st = reset st'" by (simp add: reset_def)
  then show "fst (analyze createSourceFile sourceCode st) =
      fst (analyze createSourceFile sourceCode st')"
    by (simp add: analyze_def Let_def)
  have "visitClass (handlerNode uuid) c =
      map_option (\<lambda>d. d\<lparr>handler_id := uuid\<rparr>) (visitClass (handlerNode uuid') c)" for c
    by (subst handlerNode_id [of uuid uuid']) (rule visitClass_id)
  then show "analyzeHandler uuid sourceFile =
     map_option (map (\<lambda>d. d\<lparr>handler_id := uuid\<rparr>)) (analyzeHandler uuid' sourceFile)"
    by (cases "find isClassDeclaration (preorder sourceFile)")
      (simp_all add: analyzeHandler_def visit_first_class option.map_comp comp_def)
qed

end
